theory Spec2Isabelle
  imports Main "HOL-Library.AList"
begin

section \<open>The settings engine of nexus: values, specifiers, errors\<close>

text \<open>
  The engine is the TypeScript module with \<^verbatim>\<open>create\<close>, \<^verbatim>\<open>resolve\<close>,
  \<^verbatim>\<open>doInitialize\<close> and \<^verbatim>\<open>metadataToData\<close>. It is dynamically typed: settings data,
  metadata and change input are plain JavaScript values, and a specifier is recognised by
  which of its optional properties are present. The embedding keeps that: one type of
  JavaScript values, and a specifier with every property optional.

  Conventions of the embedding.
  \<^item> An object is the list of its own properties in insertion order; a well-formed object
    has distinct keys. \<^verbatim>\<open>obj[k] = v\<close> replaces the value of an existing key in place and
    appends a new key (\<open>AList.update\<close>).
  \<^item> A plain object inherits the members of \<^verbatim>\<open>Object.prototype\<close>: \<^verbatim>\<open>obj[k]\<close> on a key
    the object does not own finds the inherited member when \<open>k\<close> names one
    (\<open>JBuiltin k\<close>), in the data, in the metadata and in the \<^verbatim>\<open>fields\<close> of a spec alike.
    The members themselves are opaque: reading a property of one gives \<^verbatim>\<open>undefined\<close>,
    assigning one succeeds and is not recorded, and the special effect of assigning
    \<^verbatim>\<open>__proto__\<close> is not modelled (the assignment is taken as that of an own property).
    What arrays, strings, numbers and booleans inherit is not modelled.
  \<^item> Objects are values. The source mutates \<^verbatim>\<open>data\<close> and \<^verbatim>\<open>metadata\<close> in place;
    the functions below take both trees and return the updated trees, writing a nested
    object back into its parent after the call that mutated it (\<open>putBack\<close>). An
    initializer is a function to a value, so every call of \<^verbatim>\<open>initial()\<close> yields an
    object of its own: an initializer that hands out one and the same object to several
    settings, or again at the next \<^verbatim>\<open>reset\<close>, is outside the embedding, and so is a
    seed of a namespace initializer that covers a record field (its value is at once
    \<^verbatim>\<open>value\<close> and \<^verbatim>\<open>initial\<close> of the record's metadata; the embedding keeps two
    copies).
  \<^item> The module is an ES module, hence strict: assigning a property of \<^verbatim>\<open>undefined\<close>,
    \<^verbatim>\<open>null\<close> or a primitive throws a \<^verbatim>\<open>TypeError\<close>; reading a property of
    \<^verbatim>\<open>undefined\<close> or \<^verbatim>\<open>null\<close> throws, reading one of another primitive gives
    \<^verbatim>\<open>undefined\<close>. Named properties of arrays are not modelled: assigning one is
    reported as \<^verbatim>\<open>TypeError\<close>.
  \<^item> A thrown exception is a value: \<open>resolve\<close> returns the error (if any) together with
    the data and metadata as they are at that moment, because the caller keeps the partly
    mutated trees; the initializer returns either an error or the two fresh trees.
  \<^item> Calls of the logger (\<^verbatim>\<open>log.trace\<close>, \<^verbatim>\<open>log.debug\<close>, and the warning of the default
    fixup handler) write to an external sink and are left out. A custom \<^verbatim>\<open>onFixup\<close>
    handler is a function that may throw.
  \<^item> Initializers read the outside world (the test suite reads \<^verbatim>\<open>process.env\<close>); they
    take an environment \<open>'e\<close>, the state of that world at the time of the call.
\<close>

datatype jsval =
    JUndefined | JNull | JBool bool | JNum int | JStr string
  | JArr "jsval list" | JObj "(string \<times> jsval) list"
  | JBuiltin string

type_synonym props = "(string \<times> jsval) list"

text \<open>What a user callback throws.\<close>

type_synonym cause = string

datatype error =
    UnknownSetting string
  | NotANamespace string jsval
  | UnknownSpecifierKind string
  | ShorthandNotSupported string jsval
  | ShorthandError string jsval cause
  | RecordNonObject
  | FixupError string jsval cause
  | OnFixupError string cause
  | ValidationRuntimeError string jsval cause
  | ValidationFailed string jsval "string list"
  | TypeMapperError string cause
  | InitializerError string cause
  | InvalidInitializerKind string jsval
  | InvalidTypeMapper string jsval
  | TypeError
  | Thrown cause

record fixup_result =
  fr_value :: jsval
  fr_messages :: "string list"

record fixup_info =
  fi_before :: jsval
  fi_after :: jsval
  fi_name :: string
  fi_messages :: "string list"

record options =
  onFixup :: "(fixup_info \<Rightarrow> cause option) option"

text \<open>
  \<^verbatim>\<open>initial\<close> and \<^verbatim>\<open>mapType\<close> are checked at run time for being functions
  (\<^verbatim>\<open>runInitializer\<close>, \<^verbatim>\<open>validateSpec\<close>), so both may hold a static value.
\<close>

datatype 'e initializer = InitFn "'e \<Rightarrow> cause + jsval" | InitStatic jsval

datatype type_mapper = MapFn "jsval \<Rightarrow> cause + jsval" | MapStatic jsval

datatype metadata_from = FromSet | FromInitial

datatype 'e specifier = Specifier
  (initial: "'e initializer option")
  (fixup: "(jsval \<Rightarrow> cause + fixup_result option) option")
  (validate: "(jsval \<Rightarrow> cause + string list option) option")
  (mapType: "type_mapper option")
  (shorthand: "(jsval \<Rightarrow> cause + props) option")
  (fields: "(string \<times> 'e specifier) list option")
  (entryFields: "(string \<times> 'e specifier) list option")

type_synonym 'e spec = "(string \<times> 'e specifier) list"

text \<open>The error thrown (if any), the data and the metadata.\<close>

type_synonym outcome = "error option \<times> jsval \<times> jsval"

section \<open>JavaScript primitives used by the engine\<close>

definition truthy :: "jsval \<Rightarrow> bool" where
  "truthy v = (case v of JUndefined \<Rightarrow> False | JNull \<Rightarrow> False | JBool b \<Rightarrow> b
     | JNum n \<Rightarrow> n \<noteq> 0 | JStr s \<Rightarrow> s \<noteq> [] | JArr _ \<Rightarrow> True | JObj _ \<Rightarrow> True
     | JBuiltin _ \<Rightarrow> True)"

definition isPlainObject :: "jsval \<Rightarrow> bool" where
  "isPlainObject v = (case v of JObj _ \<Rightarrow> True | _ \<Rightarrow> False)"

definition nullish :: "jsval \<Rightarrow> bool" where
  "nullish v = (v = JUndefined \<or> v = JNull)"

text \<open>\<^verbatim>\<open>a ?? b\<close>\<close>

definition coalesce :: "jsval \<Rightarrow> jsval \<Rightarrow> jsval" where
  "coalesce a b = (if nullish a then b else a)"

definition digit :: "nat \<Rightarrow> char" where
  "digit d = ''0123456789'' ! d"

function showNat :: "nat \<Rightarrow> string" where
  "showNat n = (if n < 10 then [digit n] else showNat (n div 10) @ [digit (n mod 10)])"
  by pat_completeness auto
termination
  by (relation "measure id") auto

declare showNat.simps [simp del]

definition indexKeys :: "nat \<Rightarrow> string list" where
  "indexKeys n = map showNat [0..<n]"

text \<open>
  The own enumerable properties that \<^verbatim>\<open>Lo.forOwn\<close>, \<^verbatim>\<open>Lo.entries\<close> and
  \<^verbatim>\<open>Lo.mapValues\<close> visit: the properties of an object, the indices of an array or of
  a string, nothing for any other value.
\<close>

definition ownEntries :: "jsval \<Rightarrow> props" where
  "ownEntries v = (case v of
      JObj ps \<Rightarrow> ps
    | JArr xs \<Rightarrow> zip (indexKeys (length xs)) xs
    | JStr s \<Rightarrow> zip (indexKeys (length s)) (map (\<lambda>c. JStr [c]) s)
    | _ \<Rightarrow> [])"

definition ownLength :: "jsval \<Rightarrow> jsval" where
  "ownLength v = (case v of JArr xs \<Rightarrow> JNum (int (length xs))
     | JStr s \<Rightarrow> JNum (int (length s)) | _ \<Rightarrow> JUndefined)"

text \<open>
  The names of the members of \<^verbatim>\<open>Object.prototype\<close>. All are functions, but
  \<^verbatim>\<open>__proto__\<close>, which reads as \<^verbatim>\<open>Object.prototype\<close> itself.
\<close>

definition objectPrototype :: "string list" where
  "objectPrototype =
     [''constructor'', ''__defineGetter__'', ''__defineSetter__'', ''hasOwnProperty'',
      ''__lookupGetter__'', ''__lookupSetter__'', ''isPrototypeOf'', ''propertyIsEnumerable'',
      ''toString'', ''valueOf'', ''__proto__'', ''toLocaleString'']"

text \<open>What \<^verbatim>\<open>obj[k]\<close> finds up the prototype chain when \<open>obj\<close> does not own \<open>k\<close>.\<close>

definition inherited :: "jsval \<Rightarrow> string \<Rightarrow> jsval" where
  "inherited obj k =
     (if isPlainObject obj \<and> k \<in> set objectPrototype then JBuiltin k else JUndefined)"

text \<open>\<^verbatim>\<open>obj[k]\<close>\<close>

definition getProp :: "jsval \<Rightarrow> string \<Rightarrow> error + jsval" where
  "getProp obj k =
     (if nullish obj then Inl TypeError
      else case map_of (ownEntries obj) k of
             Some v \<Rightarrow> Inr v
           | None \<Rightarrow> Inr (if k = ''length'' then ownLength obj else inherited obj k))"

text \<open>\<^verbatim>\<open>obj[k] = v\<close>\<close>

definition setProp :: "jsval \<Rightarrow> string \<Rightarrow> jsval \<Rightarrow> error + jsval" where
  "setProp obj k v =
     (case obj of
        JObj ps \<Rightarrow> Inr (JObj (AList.update k v ps))
      | JBuiltin n \<Rightarrow> Inr (JBuiltin n)
      | _ \<Rightarrow> Inl TypeError)"

text \<open>
  After a call that mutated the object \<open>child\<close> read from \<^verbatim>\<open>obj[k]\<close>: the parent sees
  the mutation. A child that is not an object cannot have been mutated.
\<close>

definition putBack :: "jsval \<Rightarrow> string \<Rightarrow> jsval \<Rightarrow> jsval" where
  "putBack obj k child = (case obj of
      JObj ps \<Rightarrow> (if isPlainObject child then JObj (AList.update k child ps) else obj)
    | _ \<Rightarrow> obj)"

section \<open>Metadata nodes\<close>

definition fromValue :: "metadata_from \<Rightarrow> jsval" where
  "fromValue f = (case f of FromSet \<Rightarrow> JStr ''set'' | FromInitial \<Rightarrow> JStr ''initial'')"

definition initMetadataField :: "jsval \<Rightarrow> jsval" where
  "initMetadataField v =
     JObj [(''type'', JStr ''leaf''), (''from'', JStr ''initial''), (''value'', v), (''initial'', v)]"

text \<open>\<^verbatim>\<open>Lo.cloneDeep(value)\<close> is \<open>value\<close> itself, objects being values.\<close>

definition initMetadataRecord :: "jsval \<Rightarrow> jsval" where
  "initMetadataRecord v =
     JObj [(''type'', JStr ''record''), (''from'', JStr ''initial''), (''value'', v), (''initial'', v)]"

text \<open>
  The metadata \<^verbatim>\<open>doInitialize\<close> gives a namespace it sees for the first time:
  \<^verbatim>\<open>{ fields: Lo.mapValues(initializedNamespace, v => ({ value: v, from: 'initial', initial: v })) }\<close>
\<close>

definition seedMetadata :: "jsval \<Rightarrow> jsval" where
  "seedMetadata seed =
     JObj [(''fields'', JObj (map (\<lambda>(k, v).
        (k, JObj [(''value'', v), (''from'', JStr ''initial''), (''initial'', v)]))
        (ownEntries seed)))]"

section \<open>Type mappers and initializers\<close>

definition runTypeMapper :: "type_mapper \<Rightarrow> jsval \<Rightarrow> string \<Rightarrow> error + jsval" where
  "runTypeMapper typeMapper inputFieldValue inputFieldName = (case typeMapper of
      MapFn f \<Rightarrow> (case f inputFieldValue of
          Inl c \<Rightarrow> Inl (TypeMapperError inputFieldName c)
        | Inr v \<Rightarrow> Inr v)
    | MapStatic _ \<Rightarrow>
        Inl (TypeMapperError inputFieldName ''TypeError: typeMapper is not a function''))"

text \<open>\<^verbatim>\<open>if (specifier.mapType)\<close>\<close>

definition hasMapType :: "'e specifier \<Rightarrow> bool" where
  "hasMapType s = (case mapType s of None \<Rightarrow> False | Some (MapFn _) \<Rightarrow> True
     | Some (MapStatic v) \<Rightarrow> truthy v)"

text \<open>\<^verbatim>\<open>if (specifier.mapType) { value = runTypeMapper(specifier.mapType, value, name) }\<close>\<close>

definition applyMapType :: "'e specifier \<Rightarrow> jsval \<Rightarrow> string \<Rightarrow> error + jsval" where
  "applyMapType s v inputFieldName =
     (if hasMapType s then runTypeMapper (the (mapType s)) v inputFieldName else Inr v)"

definition runInitializer :: "'e \<Rightarrow> 'e specifier \<Rightarrow> string \<Rightarrow> jsval \<Rightarrow> error + jsval" where
  "runInitializer env s inputFieldName data = (case initial s of
      None \<Rightarrow> (case getProp data inputFieldName of
          Inl e \<Rightarrow> Inl e
        | Inr v \<Rightarrow> Inr (coalesce v JUndefined))
    | Some (InitStatic JUndefined) \<Rightarrow> (case getProp data inputFieldName of
          Inl e \<Rightarrow> Inl e
        | Inr v \<Rightarrow> Inr (coalesce v JUndefined))
    | Some (InitFn f) \<Rightarrow> (case f env of
          Inl c \<Rightarrow> Inl (InitializerError inputFieldName c)
        | Inr v \<Rightarrow> Inr v)
    | Some (InitStatic v) \<Rightarrow> Inl (InvalidInitializerKind inputFieldName v))"

text \<open>\<^verbatim>\<open>specifier.initial?.()\<close>, outside any \<^verbatim>\<open>try\<close>\<close>

definition callInitial :: "'e \<Rightarrow> 'e specifier \<Rightarrow> error + jsval" where
  "callInitial env s = (case initial s of
      None \<Rightarrow> Inr JUndefined
    | Some (InitFn f) \<Rightarrow> (case f env of Inl c \<Rightarrow> Inl (Thrown c) | Inr v \<Rightarrow> Inr v)
    | Some (InitStatic v) \<Rightarrow> (if nullish v then Inr JUndefined else Inl TypeError))"

text \<open>
  The first three statements of the namespace branch of \<^verbatim>\<open>doInitialize\<close>:
  the seed, \<^verbatim>\<open>data[name] = data[name] ?? seed\<close>, and the same for the metadata.
\<close>

definition seedNamespace ::
  "'e \<Rightarrow> 'e specifier \<Rightarrow> string \<Rightarrow> jsval \<Rightarrow> jsval \<Rightarrow> error + jsval \<times> jsval" where
  "seedNamespace env s inputFieldName data metadata = (case callInitial env s of
      Inl e \<Rightarrow> Inl e
    | Inr r \<Rightarrow> (case getProp data inputFieldName of
        Inl e \<Rightarrow> Inl e
      | Inr d \<Rightarrow> (case setProp data inputFieldName (coalesce d (coalesce r (JObj []))) of
          Inl e \<Rightarrow> Inl e
        | Inr data' \<Rightarrow> (case getProp metadata inputFieldName of
            Inl e \<Rightarrow> Inl e
          | Inr m \<Rightarrow> (case setProp metadata inputFieldName
                              (coalesce m (seedMetadata (coalesce r (JObj [])))) of
              Inl e \<Rightarrow> Inl e
            | Inr metadata' \<Rightarrow> Inr (data', metadata'))))))"

text \<open>\<^verbatim>\<open>specifier.initial ? ... : ...\<close>\<close>

definition hasInitial :: "'e specifier \<Rightarrow> bool" where
  "hasInitial s = (case initial s of None \<Rightarrow> False | Some (InitFn _) \<Rightarrow> True
     | Some (InitStatic v) \<Rightarrow> truthy v)"

definition recordSeed :: "'e \<Rightarrow> 'e specifier \<Rightarrow> string \<Rightarrow> jsval \<Rightarrow> error + jsval" where
  "recordSeed env s inputFieldName data =
     (if hasInitial s then runInitializer env s inputFieldName data else Inr (JObj []))"

text \<open>The leaf branch of \<^verbatim>\<open>doInitialize\<close>.\<close>

definition initLeaf ::
  "'e \<Rightarrow> 'e specifier \<Rightarrow> string \<Rightarrow> jsval \<Rightarrow> jsval \<Rightarrow> error + jsval \<times> jsval" where
  "initLeaf env s inputFieldName data metadata =
     (case runInitializer env s inputFieldName data of
        Inl e \<Rightarrow> Inl e
      | Inr v \<Rightarrow> (case applyMapType s v inputFieldName of
          Inl e \<Rightarrow> Inl e
        | Inr v' \<Rightarrow> (case setProp data inputFieldName v' of
            Inl e \<Rightarrow> Inl e
          | Inr data' \<Rightarrow> (case setProp metadata inputFieldName (initMetadataField v') of
              Inl e \<Rightarrow> Inl e
            | Inr metadata' \<Rightarrow> Inr (data', metadata')))))"

text \<open>The last two assignments of the record branch of \<^verbatim>\<open>doInitialize\<close>.\<close>

definition storeRecord ::
  "string \<Rightarrow> props \<Rightarrow> props \<Rightarrow> jsval \<Rightarrow> jsval \<Rightarrow> error + jsval \<times> jsval" where
  "storeRecord inputFieldName accData accMetadata data metadata =
     (case setProp data inputFieldName (JObj accData) of
        Inl e \<Rightarrow> Inl e
      | Inr data' \<Rightarrow> (case getProp metadata inputFieldName of
          Inl e \<Rightarrow> Inl e
        | Inr m \<Rightarrow> (case setProp metadata inputFieldName
                            (coalesce m (initMetadataRecord (JObj accMetadata))) of
            Inl e \<Rightarrow> Inl e
          | Inr metadata' \<Rightarrow> Inr (data', metadata'))))"

section \<open>The commit pipeline of a leaf\<close>

definition runFixup :: "options \<Rightarrow> 'e specifier \<Rightarrow> string \<Rightarrow> jsval \<Rightarrow> error + jsval" where
  "runFixup opts s inputFieldName inputFieldValue = (case fixup s of
      None \<Rightarrow> Inr inputFieldValue
    | Some f \<Rightarrow> (case f inputFieldValue of
          Inl c \<Rightarrow> Inl (FixupError inputFieldName inputFieldValue c)
        | Inr None \<Rightarrow> Inr inputFieldValue
        | Inr (Some maybeFixedup) \<Rightarrow> (case onFixup opts of
              None \<Rightarrow> Inr (fr_value maybeFixedup)
            | Some handler \<Rightarrow> (case handler \<lparr>fi_before = inputFieldValue,
                    fi_after = fr_value maybeFixedup, fi_name = inputFieldName,
                    fi_messages = fr_messages maybeFixedup\<rparr> of
                  Some c \<Rightarrow> Inl (OnFixupError inputFieldName c)
                | None \<Rightarrow> Inr (fr_value maybeFixedup)))))"

definition runValidate :: "'e specifier \<Rightarrow> string \<Rightarrow> jsval \<Rightarrow> error + jsval" where
  "runValidate s inputFieldName resolvedValue = (case validate s of
      None \<Rightarrow> Inr resolvedValue
    | Some f \<Rightarrow> (case f resolvedValue of
          Inl c \<Rightarrow> Inl (ValidationRuntimeError inputFieldName resolvedValue c)
        | Inr (Some messages) \<Rightarrow> Inl (ValidationFailed inputFieldName resolvedValue messages)
        | Inr None \<Rightarrow> Inr resolvedValue))"

text \<open>
  \<^verbatim>\<open>metadata[name].value = v; metadata[name].from = metadataFrom;\<close>
  \<^verbatim>\<open>if (metadataFrom === 'initial') metadata[name].initial = v\<close>, on the node
  \<^verbatim>\<open>metadata[name]\<close>.
\<close>

definition commitMetadata :: "metadata_from \<Rightarrow> jsval \<Rightarrow> jsval \<Rightarrow> error + jsval" where
  "commitMetadata metadataFrom node v = (case setProp node ''value'' v of
      Inl e \<Rightarrow> Inl e
    | Inr n1 \<Rightarrow> (case setProp n1 ''from'' (fromValue metadataFrom) of
          Inl e \<Rightarrow> Inl e
        | Inr n2 \<Rightarrow> (if metadataFrom = FromInitial then setProp n2 ''initial'' v else Inr n2)))"

definition commit :: "metadata_from \<Rightarrow> string \<Rightarrow> jsval \<Rightarrow> jsval \<Rightarrow> jsval \<Rightarrow> outcome" where
  "commit metadataFrom inputFieldName v data metadata = (case setProp data inputFieldName v of
      Inl e \<Rightarrow> (Some e, data, metadata)
    | Inr data' \<Rightarrow> (case getProp metadata inputFieldName of
          Inl e \<Rightarrow> (Some e, data', metadata)
        | Inr node \<Rightarrow> (case commitMetadata metadataFrom node v of
              Inl e \<Rightarrow> (Some e, data', metadata)
            | Inr node' \<Rightarrow> (None, data', putBack metadata inputFieldName node'))))"

text \<open>The part of the callback of \<^verbatim>\<open>resolve\<close> below the comment \<^verbatim>\<open>Resolve Leaf\<close>.\<close>

definition resolveLeaf ::
  "options \<Rightarrow> metadata_from \<Rightarrow> 'e specifier \<Rightarrow> string \<Rightarrow> jsval \<Rightarrow> jsval \<Rightarrow> jsval \<Rightarrow> outcome"
  where
  "resolveLeaf opts metadataFrom s inputFieldName inputFieldValue data metadata =
     (case runFixup opts s inputFieldName inputFieldValue of
        Inl e \<Rightarrow> (Some e, data, metadata)
      | Inr fixed \<Rightarrow> (case runValidate s inputFieldName fixed of
            Inl e \<Rightarrow> (Some e, data, metadata)
          | Inr valid \<Rightarrow> (case applyMapType s valid inputFieldName of
                Inl e \<Rightarrow> (Some e, data, metadata)
              | Inr mapped \<Rightarrow> commit metadataFrom inputFieldName mapped data metadata)))"

section \<open>Namespaces and records\<close>

definition expandShorthand :: "'e specifier \<Rightarrow> string \<Rightarrow> jsval \<Rightarrow> error + jsval" where
  "expandShorthand s path inputFieldValue =
     (if \<not> isPlainObject inputFieldValue \<and> shorthand s \<noteq> None
      then (case the (shorthand s) inputFieldValue of
              Inl c \<Rightarrow> Inl (ShorthandError path inputFieldValue c)
            | Inr longhand \<Rightarrow> Inr (JObj longhand))
      else Inr inputFieldValue)"

text \<open>
  \<^verbatim>\<open>data[key] = initial.data; metadata.value[key] = initial.metadata\<close> of
  \<^verbatim>\<open>resolveRecord\<close>.
\<close>

definition addRecordEntry :: "string \<Rightarrow> jsval \<Rightarrow> jsval \<Rightarrow> jsval \<Rightarrow> jsval \<Rightarrow> outcome" where
  "addRecordEntry key d0 m0 data metadata = (case setProp data key d0 of
      Inl e \<Rightarrow> (Some e, data, metadata)
    | Inr data' \<Rightarrow> (case getProp metadata ''value'' of
        Inl e \<Rightarrow> (Some e, data', metadata)
      | Inr mv \<Rightarrow> (case setProp mv key m0 of
          Inl e \<Rightarrow> (Some e, data', metadata)
        | Inr mv' \<Rightarrow> (None, data', putBack metadata ''value'' mv'))))"

text \<open>
  \<^verbatim>\<open>resolve\<close> called with \<^verbatim>\<open>fields\<close> undefined: the first key of the input makes
  \<^verbatim>\<open>fields[inputFieldName]\<close> throw.
\<close>

definition noFields :: "jsval \<Rightarrow> jsval \<Rightarrow> jsval \<Rightarrow> outcome" where
  "noFields input data metadata =
     ((if ownEntries input = [] then None else Some TypeError), data, metadata)"

section \<open>Resolver and initializer\<close>

text \<open>
  \<^verbatim>\<open>fields[inputFieldName]\<close> of \<^verbatim>\<open>resolve\<close>. \<^verbatim>\<open>fields\<close> is a plain object, so a name
  of \<^verbatim>\<open>Object.prototype\<close> that the spec does not define finds the inherited member, which
  is truthy and has none of the properties of a specifier.
\<close>

definition inheritedSpecifier :: "'e specifier" where
  "inheritedSpecifier = Specifier None None None None None None None"

definition findSpecifier :: "'e spec \<Rightarrow> string \<Rightarrow> 'e specifier option" where
  "findSpecifier flds inputFieldName = (case map_of flds inputFieldName of
      Some s \<Rightarrow> Some s
    | None \<Rightarrow> if inputFieldName \<in> set objectPrototype then Some inheritedSpecifier else None)"

definition specSize :: "'e spec \<Rightarrow> nat" where
  "specSize flds = size_list (size_prod (\<lambda>_. 0) size) flds"

text \<open>
  \<open>resolveEach\<close> is the loop \<^verbatim>\<open>Lo.forOwn(input, ...)\<close> of \<^verbatim>\<open>resolve\<close>,
  \<open>resolveRecordEach\<close> the loop of \<^verbatim>\<open>resolveRecord\<close>, \<open>doInitialize\<close> the
  \<^verbatim>\<open>reduce\<close> over the entries of \<^verbatim>\<open>fields\<close>, \<open>initRecordEntries\<close> the \<^verbatim>\<open>reduce\<close>
  over the entries of a record's seed. \<open>resolveRecord\<close> calls \<open>initialize\<close> and
  \<open>doInitialize\<close> calls \<open>resolve\<close>; every call descends into the specifier.
\<close>

function
  resolve :: "options \<Rightarrow> metadata_from \<Rightarrow> 'e \<Rightarrow> 'e spec \<Rightarrow> jsval \<Rightarrow> jsval \<Rightarrow> jsval \<Rightarrow> outcome" and
  resolveEach :: "options \<Rightarrow> metadata_from \<Rightarrow> 'e \<Rightarrow> 'e spec \<Rightarrow> props \<Rightarrow> jsval \<Rightarrow> jsval \<Rightarrow> outcome" and
  resolveNamespace :: "options \<Rightarrow> metadata_from \<Rightarrow> 'e \<Rightarrow> 'e specifier \<Rightarrow> jsval \<Rightarrow> string
     \<Rightarrow> jsval \<Rightarrow> jsval \<Rightarrow> outcome" and
  resolveRecord :: "options \<Rightarrow> metadata_from \<Rightarrow> 'e \<Rightarrow> 'e specifier \<Rightarrow> jsval
     \<Rightarrow> jsval \<Rightarrow> jsval \<Rightarrow> outcome" and
  resolveRecordEach :: "options \<Rightarrow> metadata_from \<Rightarrow> 'e \<Rightarrow> 'e specifier \<Rightarrow> props
     \<Rightarrow> jsval \<Rightarrow> jsval \<Rightarrow> outcome" and
  initialize :: "'e \<Rightarrow> 'e spec \<Rightarrow> error + jsval \<times> jsval" and
  doInitialize :: "'e \<Rightarrow> 'e spec \<Rightarrow> jsval \<Rightarrow> jsval \<Rightarrow> error + jsval \<times> jsval" and
  initRecordEntries :: "'e \<Rightarrow> 'e spec \<Rightarrow> props \<Rightarrow> props \<Rightarrow> props \<Rightarrow> error + props \<times> props"
where
  "resolve opts metadataFrom env flds input data metadata =
     resolveEach opts metadataFrom env flds (ownEntries input) data metadata"
| "resolveEach opts metadataFrom env flds [] data metadata = (None, data, metadata)"
| "resolveEach opts metadataFrom env flds ((inputFieldName, inputFieldValue) # rest) data metadata =
     (case findSpecifier flds inputFieldName of
        None \<Rightarrow> (Some (UnknownSetting inputFieldName), data, metadata)
      | Some s \<Rightarrow>
          if isPlainObject inputFieldValue \<and> fields s = None \<and> entryFields s = None
          then (Some (NotANamespace inputFieldName inputFieldValue), data, metadata)
          else if isPlainObject inputFieldValue \<and> entryFields s = None \<and> fields s = None
          then (Some (UnknownSpecifierKind inputFieldName), data, metadata)
          else if fields s \<noteq> None
          then (case getProp data inputFieldName of
              Inl e \<Rightarrow> (Some e, data, metadata)
            | Inr d \<Rightarrow> (case getProp metadata inputFieldName of
                Inl e \<Rightarrow> (Some e, data, metadata)
              | Inr m \<Rightarrow>
                 (case resolveNamespace opts metadataFrom env s inputFieldValue inputFieldName d m of
                    (Some e, d', m') \<Rightarrow>
                      (Some e, putBack data inputFieldName d', putBack metadata inputFieldName m')
                  | (None, d', m') \<Rightarrow>
                      resolveEach opts metadataFrom env flds rest
                        (putBack data inputFieldName d') (putBack metadata inputFieldName m'))))
          else if entryFields s \<noteq> None
          then (case getProp data inputFieldName of
              Inl e \<Rightarrow> (Some e, data, metadata)
            | Inr d \<Rightarrow> (case getProp metadata inputFieldName of
                Inl e \<Rightarrow> (Some e, data, metadata)
              | Inr m \<Rightarrow>
                 (case resolveRecord opts metadataFrom env s inputFieldValue d m of
                    (Some e, d', m') \<Rightarrow>
                      (Some e, putBack data inputFieldName d', putBack metadata inputFieldName m')
                  | (None, d', m') \<Rightarrow>
                      resolveEach opts metadataFrom env flds rest
                        (putBack data inputFieldName d') (putBack metadata inputFieldName m'))))
          else (case resolveLeaf opts metadataFrom s inputFieldName inputFieldValue data metadata of
              (Some e, data', metadata') \<Rightarrow> (Some e, data', metadata')
            | (None, data', metadata') \<Rightarrow>
                resolveEach opts metadataFrom env flds rest data' metadata'))"
| "resolveNamespace opts metadataFrom env s inputFieldValue path data metadata =
     (if \<not> isPlainObject inputFieldValue \<and> fields s \<noteq> None \<and> shorthand s = None
      then (Some (ShorthandNotSupported path inputFieldValue), data, metadata)
      else (case expandShorthand s path inputFieldValue of
          Inl e \<Rightarrow> (Some e, data, metadata)
        | Inr longhandValue \<Rightarrow> (case getProp metadata ''fields'' of
            Inl e \<Rightarrow> (Some e, data, metadata)
          | Inr mf \<Rightarrow> (case fields s of
              None \<Rightarrow> noFields longhandValue data metadata
            | Some fs \<Rightarrow>
               (case resolve opts metadataFrom env fs longhandValue data mf of
                  (err, data', mf') \<Rightarrow> (err, data', putBack metadata ''fields'' mf'))))))"
| "resolveRecord opts metadataFrom env s inputFieldValue data metadata =
     (if \<not> isPlainObject inputFieldValue
      then (Some RecordNonObject, data, metadata)
      else resolveRecordEach opts metadataFrom env s (ownEntries inputFieldValue) data metadata)"
| "resolveRecordEach opts metadataFrom env s [] data metadata = (None, data, metadata)"
| "resolveRecordEach opts metadataFrom env s ((key, inputEntryValue) # rest) data metadata =
     (case getProp data key of
        Inl e \<Rightarrow> (Some e, data, metadata)
      | Inr existing \<Rightarrow>
         (case (if truthy existing then (None, data, metadata)
                else (case (case entryFields s of None \<Rightarrow> Inr (JObj [], JObj [])
                             | Some es \<Rightarrow> initialize env es) of
                    Inl e \<Rightarrow> (Some e, data, metadata)
                  | Inr (d0, m0) \<Rightarrow> addRecordEntry key d0 m0 data metadata)) of
            (Some e, data1, metadata1) \<Rightarrow> (Some e, data1, metadata1)
          | (None, data1, metadata1) \<Rightarrow> (case getProp data1 key of
              Inl e \<Rightarrow> (Some e, data1, metadata1)
            | Inr d \<Rightarrow> (case getProp metadata1 ''value'' of
                Inl e \<Rightarrow> (Some e, data1, metadata1)
              | Inr mv \<Rightarrow> (case getProp mv key of
                  Inl e \<Rightarrow> (Some e, data1, metadata1)
                | Inr m \<Rightarrow>
                   (case (case entryFields s of None \<Rightarrow> noFields inputEntryValue d m
                          | Some es \<Rightarrow> resolve opts metadataFrom env es inputEntryValue d m) of
                      (Some e, d', m') \<Rightarrow>
                        (Some e, putBack data1 key d',
                         putBack metadata1 ''value'' (putBack mv key m'))
                    | (None, d', m') \<Rightarrow>
                        resolveRecordEach opts metadataFrom env s rest
                          (putBack data1 key d')
                          (putBack metadata1 ''value'' (putBack mv key m'))))))))"
| "initialize env flds = doInitialize env flds (JObj []) (JObj [])"
| "doInitialize env [] data metadata = Inr (data, metadata)"
| "doInitialize env ((inputFieldName, s) # rest) data metadata =
     (case fields s of
        Some fs \<Rightarrow> (case seedNamespace env s inputFieldName data metadata of
            Inl e \<Rightarrow> Inl e
          | Inr (data1, metadata1) \<Rightarrow> (case getProp data1 inputFieldName of
              Inl e \<Rightarrow> Inl e
            | Inr d \<Rightarrow> (case getProp metadata1 inputFieldName of
                Inl e \<Rightarrow> Inl e
              | Inr node \<Rightarrow> (case getProp node ''fields'' of
                  Inl e \<Rightarrow> Inl e
                | Inr mf \<Rightarrow> (case doInitialize env fs d mf of
                    Inl e \<Rightarrow> Inl e
                  | Inr (d', mf') \<Rightarrow>
                      doInitialize env rest (putBack data1 inputFieldName d')
                        (putBack metadata1 inputFieldName (putBack node ''fields'' mf')))))))
      | None \<Rightarrow> (case entryFields s of
          Some es \<Rightarrow> (case recordSeed env s inputFieldName data of
              Inl e \<Rightarrow> Inl e
            | Inr initialRecord \<Rightarrow>
               (case initRecordEntries env es (ownEntries initialRecord) [] [] of
                  Inl e \<Rightarrow> Inl e
                | Inr (accData, accMetadata) \<Rightarrow>
                   (case storeRecord inputFieldName accData accMetadata data metadata of
                      Inl e \<Rightarrow> Inl e
                    | Inr (data1, metadata1) \<Rightarrow> doInitialize env rest data1 metadata1)))
        | None \<Rightarrow> (case initLeaf env s inputFieldName data metadata of
              Inl e \<Rightarrow> Inl e
            | Inr (data1, metadata1) \<Rightarrow> doInitialize env rest data1 metadata1)))"
| "initRecordEntries env es [] accData accMetadata = Inr (accData, accMetadata)"
| "initRecordEntries env es ((k, v) # rest) accData accMetadata =
     (case initialize env es of
        Inl e \<Rightarrow> Inl e
      | Inr (d0, m0) \<Rightarrow> (case resolve \<lparr>onFixup = None\<rparr> FromInitial env es v d0 m0 of
          (Some e, d1, m1) \<Rightarrow> Inl e
        | (None, d1, m1) \<Rightarrow>
            initRecordEntries env es rest
              (AList.update k d1 accData) (AList.update k m1 accMetadata)))"
  by pat_completeness auto
termination
proof -
  have own: "size s < specSize flds" if "map_of flds k = Some s"
    for flds :: "'e spec" and k s
    using that unfolding specSize_def by (induction flds) (auto split: if_splits)
  have lookup: "size s < specSize flds"
    if "findSpecifier flds k = Some s" "fields s \<noteq> None \<or> entryFields s \<noteq> None"
    for flds :: "'e spec" and k s
    using that own [of flds k s]
    by (auto simp: findSpecifier_def inheritedSpecifier_def split: option.splits if_splits)
  have sub: "specSize fs < size s" if "fields s = Some fs \<or> entryFields s = Some fs"
    for fs and s :: "'e specifier"
    using that unfolding specSize_def by (cases s) auto
  have tl: "specSize rest < specSize (p # rest)" for rest and p :: "string \<times> 'e specifier"
    unfolding specSize_def by simp
  have hd: "size s < specSize ((k, s) # rest)" for rest k and s :: "'e specifier"
    unfolding specSize_def by simp
  have nested: "specSize fs < specSize ((k, s) # rest)"
    if "fields s = Some fs \<or> entryFields s = Some fs" for fs rest k and s :: "'e specifier"
    using sub [OF that] hd [of s k rest] by simp
  show ?thesis
    by (relation "inv_image (less_than <*lex*> less_than <*lex*> less_than)
      (\<lambda>x. case x of
         Inl (Inl (Inl (opts, mf, env, flds, input, d, m))) \<Rightarrow> (specSize flds, 1::nat, 0::nat)
       | Inl (Inl (Inr (opts, mf, env, flds, es, d, m))) \<Rightarrow> (specSize flds, 0, length es)
       | Inl (Inr (Inl (opts, mf, env, s, v, p, d, m))) \<Rightarrow> (size s, 0, 0)
       | Inl (Inr (Inr (opts, mf, env, s, v, d, m))) \<Rightarrow> (size s, 1, 0)
       | Inr (Inl (Inl (opts, mf, env, s, es, d, m))) \<Rightarrow> (size s, 0, length es)
       | Inr (Inl (Inr (env, flds))) \<Rightarrow> (specSize flds, 1, 0)
       | Inr (Inr (Inl (env, flds, d, m))) \<Rightarrow> (specSize flds, 0, 0)
       | Inr (Inr (Inr (env, es, entries, ad, am))) \<Rightarrow> (specSize es, 2, length entries))")
      (auto simp: lookup sub tl nested)
qed

section \<open>The projection of the metadata on the initial data\<close>

text \<open>
  \<open>metadataToDataEach\<close> is the loop \<^verbatim>\<open>Lo.forOwn(metadata, ...)\<close> of
  \<^verbatim>\<open>metadataToData\<close>; \<open>copy\<close> is the object being filled.
\<close>

fun weight :: "jsval \<Rightarrow> nat" where
  "weight (JObj ps) = Suc (sum_list (map (\<lambda>p. weight (snd p)) ps))"
| "weight (JArr xs) = Suc (sum_list (map weight xs))"
| "weight _ = 0"

function
  metadataToData :: "jsval \<Rightarrow> props \<Rightarrow> error + props" and
  metadataToDataEach :: "props \<Rightarrow> props \<Rightarrow> error + props"
where
  "metadataToData metadata copy = metadataToDataEach (ownEntries metadata) copy"
| "metadataToDataEach [] copy = Inr copy"
| "metadataToDataEach ((name, info) # rest) copy =
     (case getProp info ''fields'' of
        Inl e \<Rightarrow> Inl e
      | Inr f \<Rightarrow>
          if truthy f
          then (case metadataToData f [] of
              Inl e \<Rightarrow> Inl e
            | Inr sub \<Rightarrow> metadataToDataEach rest (AList.update name (JObj sub) copy))
          else (case getProp info ''initial'' of
              Inl e \<Rightarrow> Inl e
            | Inr v \<Rightarrow> metadataToDataEach rest (AList.update name v copy)))"
  by pat_completeness auto
termination
proof -
  define total :: "props \<Rightarrow> nat"
    where "total ps = sum_list (map (\<lambda>p. weight (snd p)) ps)" for ps
  have mem: "weight v \<le> total ps" if "(k, v) \<in> set ps" for k v ps
    using that unfolding total_def by (induction ps) auto
  have digits: "set (showNat n) \<subseteq> set ''0123456789''" for n
  proof (induction n rule: showNat.induct)
    case (1 n)
    have d: "digit m \<in> set ''0123456789''" if "m < 10" for m
      unfolding digit_def by (rule nth_mem) (use that in simp)
    show ?case
      using 1 d [of n] d [of "n mod 10"] by (subst showNat.simps) auto
  qed
  have nokey: "map_of (zip (indexKeys n) vs) ''fields'' = None"
    if "length vs = n" for n and vs :: "jsval list"
  proof -
    have "showNat m \<noteq> ''fields''" for m
    proof
      assume "showNat m = ''fields''"
      then have "CHR ''f'' \<in> set (showNat m)" by simp
      with digits [of m] show False by auto
    qed
    then have "''fields'' \<notin> set (indexKeys n)"
      unfolding indexKeys_def by (metis imageE list.set_map)
    moreover have "length (indexKeys n) = length vs"
      using that by (simp add: indexKeys_def)
    ultimately show ?thesis
      by (simp add: map_of_zip_is_None)
  qed
  have total_str: "total (zip ks (map (\<lambda>c. JStr [c]) s)) = 0" for s and ks :: "string list"
    unfolding total_def
  proof (induction s arbitrary: ks)
    case Nil
    then show ?case by simp
  next
    case (Cons a s)
    then show ?case by (cases ks) simp_all
  qed
  have total_arr: "total (zip ks xs) \<le> sum_list (map weight xs)" for xs and ks :: "string list"
    unfolding total_def
  proof (induction xs arbitrary: ks)
    case Nil
    then show ?case by simp
  next
    case (Cons a xs)
    show ?case
    proof (cases ks)
      case Nil
      then show ?thesis by simp
    next
      case (Cons k ks')
      then show ?thesis using Cons.IH [of ks'] by simp
    qed
  qed
  have entries: "total (ownEntries v) \<le> weight v" for v
  proof (cases v)
    case (JStr s)
    then show ?thesis by (simp add: ownEntries_def total_str)
  next
    case (JArr xs)
    then show ?thesis
      using total_arr [of "indexKeys (length xs)" xs] by (simp add: ownEntries_def)
  next
    case (JObj ps)
    then show ?thesis by (simp add: ownEntries_def total_def)
  qed (simp_all add: ownEntries_def total_def)
  have child: "weight f < weight info" if "getProp info ''fields'' = Inr f" "truthy f" for info f
  proof (cases info)
    case (JObj ps)
    with that have "(''fields'', f) \<in> set ps"
      by (auto simp: getProp_def nullish_def ownEntries_def truthy_def inherited_def
          objectPrototype_def split: option.splits dest: map_of_SomeD)
    from mem [OF this] show ?thesis using JObj by (simp add: total_def less_Suc_eq_le)
  next
    case (JArr xs)
    with that show ?thesis
      by (simp add: getProp_def nullish_def ownEntries_def truthy_def nokey inherited_def
          isPlainObject_def)
  next
    case (JStr s)
    with that show ?thesis
      by (simp add: getProp_def nullish_def ownEntries_def truthy_def nokey inherited_def
          isPlainObject_def)
  qed (use that in \<open>simp_all add: getProp_def nullish_def ownEntries_def truthy_def
      inherited_def isPlainObject_def\<close>)
  have cons: "total (p # ps) = weight (snd p) + total ps" for p ps
    by (simp add: total_def)
  show ?thesis
  proof (relation "inv_image (less_than <*lex*> less_than)
      (\<lambda>x. case x of
         Inl (metadata, copy) \<Rightarrow> (weight metadata, Suc (length (ownEntries metadata)))
       | Inr (es, copy) \<Rightarrow> (total es, length es))", goal_cases)
    case 1
    show ?case by (intro wf_inv_image wf_lex_prod wf_less_than)
  next
    case (2 metadata copy)
    show ?case using entries [of metadata] by auto
  next
    case (3 name info rest copy f)
    then show ?case using child [of info f] by (simp add: cons)
  next
    case (4 name info rest copy f sub)
    show ?case by (auto simp: cons)
  next
    case (5 name info rest copy f v)
    show ?case by (auto simp: cons)
  qed
qed

section \<open>Spec validation\<close>

function validateSpec :: "'e spec \<Rightarrow> error option" where
  "validateSpec [] = None"
| "validateSpec ((name, s) # rest) =
     (case fields s of
        Some fs \<Rightarrow> (case validateSpec fs of Some e \<Rightarrow> Some e | None \<Rightarrow> validateSpec rest)
      | None \<Rightarrow> (case entryFields s of
          Some es \<Rightarrow> (case validateSpec es of Some e \<Rightarrow> Some e | None \<Rightarrow> validateSpec rest)
        | None \<Rightarrow> (case mapType s of
            Some (MapStatic v) \<Rightarrow>
              (if v \<noteq> JUndefined then Some (InvalidTypeMapper name v) else validateSpec rest)
          | _ \<Rightarrow> validateSpec rest)))"
  by pat_completeness auto
termination
proof -
  have sub: "specSize fs < specSize ((k, s) # rest)"
    if "fields s = Some fs \<or> entryFields s = Some fs" for fs rest k and s :: "'e specifier"
    using that unfolding specSize_def by (cases s) auto
  have tl: "specSize rest < specSize (p # rest)" for rest and p :: "string \<times> 'e specifier"
    unfolding specSize_def by simp
  show ?thesis
    by (relation "measure specSize") (auto simp: sub tl)
qed

section \<open>The manager\<close>

text \<open>
  The closure state of \<^verbatim>\<open>create\<close>: the spec, the options, and the current data and
  metadata. \<^verbatim>\<open>state.original\<close> is never assigned, so \<^verbatim>\<open>original()\<close> always projects the
  metadata. \<open>dev\<close> is \<^verbatim>\<open>isDevelopment()\<close>.
\<close>

datatype 'e manager = Manager
  (mgr_spec: "'e spec")
  (mgr_options: options)
  (mgr_data: jsval)
  (mgr_metadata: jsval)

definition create :: "bool \<Rightarrow> 'e \<Rightarrow> options \<Rightarrow> 'e spec \<Rightarrow> error + 'e manager" where
  "create dev env options flds =
     (case (if dev then validateSpec flds else None) of
        Some e \<Rightarrow> Inl e
      | None \<Rightarrow> (case initialize env flds of
          Inl e \<Rightarrow> Inl e
        | Inr (d, m) \<Rightarrow> Inr (Manager flds options d m)))"

text \<open>A failed \<^verbatim>\<open>change\<close> leaves the manager with whatever was committed before the throw.\<close>

definition change :: "'e \<Rightarrow> jsval \<Rightarrow> 'e manager \<Rightarrow> error option \<times> 'e manager" where
  "change env input mgr =
     (case resolve (mgr_options mgr) FromSet env (mgr_spec mgr) input
             (mgr_data mgr) (mgr_metadata mgr) of
        (err, d, m) \<Rightarrow> (err, Manager (mgr_spec mgr) (mgr_options mgr) d m))"

text \<open>A failed \<^verbatim>\<open>reset\<close> throws before it assigns anything.\<close>

definition reset :: "'e \<Rightarrow> 'e manager \<Rightarrow> error + 'e manager" where
  "reset env mgr = (case initialize env (mgr_spec mgr) of
      Inl e \<Rightarrow> Inl e
    | Inr (d, m) \<Rightarrow> Inr (Manager (mgr_spec mgr) (mgr_options mgr) d m))"

definition original :: "'e manager \<Rightarrow> error + jsval" where
  "original mgr = (case metadataToData (mgr_metadata mgr) [] of
      Inl e \<Rightarrow> Inl e
    | Inr copy \<Rightarrow> Inr (JObj copy))"

section \<open>Example specifications\<close>

text \<open>The \<^verbatim>\<open>c\<close> of the test suite: a constant function as initializer.\<close>

definition always :: "jsval \<Rightarrow> unit initializer option" where
  "always v = Some (InitFn (\<lambda>_. Inr v))"

definition leafOf :: "jsval \<Rightarrow> unit specifier" where
  "leafOf v = Specifier (always v) None None None None None None"

definition noOptions :: options where
  "noOptions = \<lparr>onFixup = None\<rparr>"

text \<open>
  The fixup of the test suite, \<^verbatim>\<open>value[0] === '/' ? null : { value: '/' + value, ... }\<close>,
  a validator that accepts exactly the strings with a leading slash, and a type mapper that
  wraps the value in an array.
\<close>

definition slashFixup :: "jsval \<Rightarrow> cause + fixup_result option" where
  "slashFixup v = Inr (case v of
      JStr (c # cs) \<Rightarrow>
        (if c = CHR ''/'' then None
         else Some \<lparr>fr_value = JStr (CHR ''/'' # c # cs),
                     fr_messages = [''must have leading slash'']\<rparr>)
    | _ \<Rightarrow> None)"

definition slashValidate :: "jsval \<Rightarrow> cause + string list option" where
  "slashValidate v = Inr (case v of
      JStr (c # cs) \<Rightarrow> (if c = CHR ''/'' then None else Some [''no leading slash''])
    | _ \<Rightarrow> Some [''not a path''])"

definition wrap :: "jsval \<Rightarrow> cause + jsval" where
  "wrap v = Inr (JArr [v])"

definition pathLeaf :: "unit specifier" where
  "pathLeaf = Specifier (always (JStr ''foo'')) (Some slashFixup) (Some slashValidate)
     (Some (MapFn wrap)) None None None"

definition pathSpec :: "unit spec" where
  "pathSpec = [(''path'', pathLeaf)]"

text \<open>\<^verbatim>\<open>{ a: { fields: { x: { initial: c(1) }, y: { initial: c(2) } } } }\<close>\<close>

definition xyNamespace :: "unit specifier" where
  "xyNamespace = Specifier None None None None None
     (Some [(''x'', leafOf (JNum 1)), (''y'', leafOf (JNum 2))]) None"

definition xySpec :: "unit spec" where
  "xySpec = [(''a'', xyNamespace)]"

text \<open>\<^verbatim>\<open>{ a: { shorthand: v => ({ b: v }), fields: { b: { initial: c('') } } } }\<close>\<close>

definition shorthandNamespace :: "unit specifier" where
  "shorthandNamespace = Specifier None None None None (Some (\<lambda>v. Inr [(''b'', v)]))
     (Some [(''b'', leafOf (JStr []))]) None"

definition shorthandSpec :: "unit spec" where
  "shorthandSpec = [(''a'', shorthandNamespace)]"

text \<open>
  \<^verbatim>\<open>{ a: { initial: c('') },\<close>
  \<^verbatim>\<open>  r: { entryFields: { n: { initial: c(1) } }, initial: c({ k: { n: 2 } }) } }\<close>
\<close>

definition seededRecord :: "unit specifier" where
  "seededRecord = Specifier (always (JObj [(''k'', JObj [(''n'', JNum 2)])])) None None None None
     None (Some [(''n'', leafOf (JNum 1))])"

definition recordSpec :: "unit spec" where
  "recordSpec = [(''a'', leafOf (JStr [])), (''r'', seededRecord)]"

text \<open>
  \<^verbatim>\<open>{ ns: { initial: c({ x: 1, y: 5 }),\<close>
  \<^verbatim>\<open>        fields: { x: { initial: c(2) }, y: {}, z: { initial: c(3) } } } }\<close>
\<close>

definition seededNamespace :: "unit specifier" where
  "seededNamespace = Specifier (always (JObj [(''x'', JNum 1), (''y'', JNum 5)])) None None None
     None
     (Some [(''x'', leafOf (JNum 2)),
            (''y'', Specifier None None None None None None None),
            (''z'', leafOf (JNum 3))])
     None"

definition seededSpec :: "unit spec" where
  "seededSpec = [(''ns'', seededNamespace)]"

section \<open>Notions used in the statements\<close>

definition isUnknownSpecifierKind :: "error \<Rightarrow> bool" where
  "isUnknownSpecifierKind e = (case e of UnknownSpecifierKind _ \<Rightarrow> True | _ \<Rightarrow> False)"

text \<open>An own property of an object, \<open>None\<close> when there is none.\<close>

definition own :: "jsval \<Rightarrow> string \<Rightarrow> jsval option" where
  "own obj k = (case obj of JObj ps \<Rightarrow> map_of ps k | _ \<Rightarrow> None)"

text \<open>
  The metadata node of the leaf at \<open>path\<close>, found the way \<^verbatim>\<open>resolve\<close> walks down to it:
  through \<^verbatim>\<open>data[k]\<close> and \<^verbatim>\<open>metadata[k].fields\<close> for a namespace, through
  \<^verbatim>\<open>data[k][e]\<close> and \<^verbatim>\<open>metadata[k].value[e]\<close> for the entry \<open>e\<close> of a record. An entry
  whose data is falsy is not there: \<^verbatim>\<open>resolveRecord\<close> initializes it anew
  (\<^verbatim>\<open>if (!data[key])\<close>).
\<close>

fun liveNode :: "'e spec \<Rightarrow> jsval \<Rightarrow> jsval \<Rightarrow> string list \<Rightarrow> jsval option"
  and liveEntry :: "'e spec \<Rightarrow> jsval \<Rightarrow> jsval \<Rightarrow> string list \<Rightarrow> jsval option"
where
  "liveNode flds data metadata [] = None"
| "liveNode flds data metadata (k # path) =
     (case map_of flds k of
        None \<Rightarrow> None
      | Some s \<Rightarrow> (case fields s of
          Some fs \<Rightarrow> (case own data k of
              None \<Rightarrow> None
            | Some d \<Rightarrow> (case own metadata k of
                None \<Rightarrow> None
              | Some node \<Rightarrow> (case own node ''fields'' of
                  None \<Rightarrow> None
                | Some fm \<Rightarrow> liveNode fs d fm path)))
        | None \<Rightarrow> (case entryFields s of
            Some es \<Rightarrow> (case own data k of
                None \<Rightarrow> None
              | Some dr \<Rightarrow> (case own metadata k of
                  None \<Rightarrow> None
                | Some node \<Rightarrow> liveEntry es dr node path))
          | None \<Rightarrow> (if path = [] then own metadata k else None))))"
| "liveEntry es dr node [] = None"
| "liveEntry es dr node (e # path) =
     (case own dr e of
        None \<Rightarrow> None
      | Some de \<Rightarrow>
          if truthy de
          then (case own node ''value'' of
              None \<Rightarrow> None
            | Some mv \<Rightarrow> (case own mv e of
                None \<Rightarrow> None
              | Some em \<Rightarrow> liveNode es de em path))
          else None)"

text \<open>
  What a call of \<^verbatim>\<open>change\<close> may do to a leaf's metadata node: it keeps \<^verbatim>\<open>initial\<close>, and
  either leaves the node as it is or leaves it with \<^verbatim>\<open>from = 'set'\<close>.
\<close>

definition keeps :: "jsval \<Rightarrow> jsval \<Rightarrow> bool" where
  "keeps n n' = (own n' ''initial'' = own n ''initial''
     \<and> (n' = n \<or> own n' ''from'' = Some (JStr ''set'')))"


text \<open>An object stays an object, anything else stays what it is.\<close>

definition shaped :: "jsval \<Rightarrow> jsval \<Rightarrow> bool" where
  "shaped a b = (if isPlainObject a then isPlainObject b else b = a)"

definition kept :: "'e spec \<Rightarrow> jsval \<Rightarrow> jsval \<Rightarrow> jsval \<Rightarrow> jsval \<Rightarrow> bool" where
  "kept flds d m d' m' = (shaped d d' \<and> shaped m m' \<and>
     (\<forall>path n. liveNode flds d m path = Some n \<longrightarrow>
        (\<exists>n'. liveNode flds d' m' path = Some n' \<and> keeps n n')))"

definition keptEntries :: "'e spec \<Rightarrow> jsval \<Rightarrow> jsval \<Rightarrow> jsval \<Rightarrow> jsval \<Rightarrow> bool" where
  "keptEntries es d m d' m' = (shaped d d' \<and> shaped m m' \<and>
     (\<forall>path n. liveEntry es d m path = Some n \<longrightarrow>
        (\<exists>n'. liveEntry es d' m' path = Some n' \<and> keeps n n')))"


section \<open>Properties of objects\<close>

lemmas engine_defs =
  truthy_def isPlainObject_def nullish_def coalesce_def getProp_def setProp_def putBack_def
  ownEntries_def ownLength_def fromValue_def initMetadataField_def initMetadataRecord_def
  seedMetadata_def runTypeMapper_def hasMapType_def applyMapType_def runInitializer_def
  callInitial_def seedNamespace_def hasInitial_def recordSeed_def initLeaf_def storeRecord_def
  runFixup_def runValidate_def commitMetadata_def commit_def resolveLeaf_def
  expandShorthand_def addRecordEntry_def noFields_def
  create_def change_def reset_def original_def

lemmas inherited_defs =
  findSpecifier_def inheritedSpecifier_def inherited_def objectPrototype_def

lemmas example_defs =
  always_def leafOf_def noOptions_def slashFixup_def slashValidate_def wrap_def pathLeaf_def
  pathSpec_def xyNamespace_def xySpec_def shorthandNamespace_def shorthandSpec_def
  seededRecord_def recordSpec_def seededNamespace_def seededSpec_def

lemma ownEntries_JObj [simp]: "ownEntries (JObj ps) = ps"
  by (simp add: ownEntries_def)

lemma isPlainObject_JObj [simp]: "isPlainObject (JObj ps)"
  by (simp add: isPlainObject_def)

lemma length_own: "''length'' \<notin> set objectPrototype"
  by (simp add: objectPrototype_def)

lemma getProp_JObj [simp]:
  "getProp (JObj ps) k = Inr (case map_of ps k of
      Some v \<Rightarrow> v
    | None \<Rightarrow> if k \<in> set objectPrototype then JBuiltin k else JUndefined)"
  using length_own
  by (cases "k = ''length''")
     (simp_all add: getProp_def nullish_def ownLength_def inherited_def split: option.splits)

lemma getProp_JBuiltin [simp]: "getProp (JBuiltin n) k = Inr JUndefined"
  by (simp add: getProp_def nullish_def ownEntries_def ownLength_def inherited_def
      isPlainObject_def)

lemma setProp_JObj [simp]: "setProp (JObj ps) k v = Inr (JObj (AList.update k v ps))"
  by (simp add: setProp_def)

lemma setProp_JBuiltin [simp]: "setProp (JBuiltin n) k v = Inr (JBuiltin n)"
  by (simp add: setProp_def)

text \<open>An assignment succeeds on an object, and on an inherited member, where it is lost.\<close>

lemma setProp_Inr:
  "setProp obj k v = Inr obj' \<Longrightarrow>
     (\<exists>ps. obj = JObj ps \<and> obj' = JObj (AList.update k v ps)) \<or>
     (\<exists>n. obj = JBuiltin n \<and> obj' = obj)"
  by (cases obj) (auto simp: setProp_def)

lemma setProp_object_Inr:
  "setProp obj k v = Inr obj' \<Longrightarrow> isPlainObject obj \<Longrightarrow>
     \<exists>ps. obj = JObj ps \<and> obj' = JObj (AList.update k v ps)"
  by (cases obj) (auto simp: setProp_def isPlainObject_def)


lemma getProp_setProp_same:
  "setProp obj k v = Inr obj' \<Longrightarrow> isPlainObject obj \<Longrightarrow> getProp obj' k = Inr v"
  by (auto dest!: setProp_object_Inr simp: update_conv')

lemma getProp_setProp_other:
  "setProp obj k v = Inr obj' \<Longrightarrow> k' \<noteq> k \<Longrightarrow> getProp obj' k' = getProp obj k'"
  by (auto dest!: setProp_Inr simp: update_conv')

lemma getProp_putBack_other:
  "k' \<noteq> k \<Longrightarrow> getProp (putBack obj k child) k' = getProp obj k'"
  by (cases obj) (simp_all add: putBack_def update_conv')



text \<open>A specifier of the spec is found under its name.\<close>

lemma findSpecifier_own [simp]:
  "map_of flds name = Some s \<Longrightarrow> findSpecifier flds name = Some s"
  by (simp add: findSpecifier_def)



section \<open>What one key of the input can touch\<close>

lemma commit_frame:
  "commit mf name v data metadata = (err, d', m') \<Longrightarrow> k \<noteq> name \<Longrightarrow>
     getProp d' k = getProp data k \<and> getProp m' k = getProp metadata k"
  by (auto simp: commit_def getProp_setProp_other getProp_putBack_other split: sum.splits)

lemma resolveLeaf_frame:
  "resolveLeaf opts mf s name v data metadata = (err, d', m') \<Longrightarrow> k \<noteq> name \<Longrightarrow>
     getProp d' k = getProp data k \<and> getProp m' k = getProp metadata k"
  unfolding resolveLeaf_def
  by (auto split: sum.splits dest: commit_frame)

lemma resolveEach_frame:
  "resolveEach opts mf env flds entries data metadata = (err, d', m') \<Longrightarrow>
   k \<notin> fst ` set entries \<Longrightarrow>
   getProp d' k = getProp data k \<and> getProp m' k = getProp metadata k"
proof (induction entries arbitrary: data metadata)
  case Nil
  then show ?case by simp
next
  case (Cons x entries)
  obtain name v where x: "x = (name, v)" by (cases x)
  from Cons.prems x have ne: "k \<noteq> name" and notin: "k \<notin> fst ` set entries" by auto
  note IH = Cons.IH [OF _ notin]
  from Cons.prems(1) show ?case
    unfolding x
    apply (simp split: option.splits if_splits sum.splits prod.splits)
    using ne IH
    apply (auto simp: getProp_putBack_other dest: resolveLeaf_frame)
    done
qed

text \<open>The loop stops at the first error.\<close>

lemma resolveEach_append:
  "resolveEach opts mf env flds (xs @ ys) data metadata =
     (case resolveEach opts mf env flds xs data metadata of
        (Some e, d, m) \<Rightarrow> (Some e, d, m)
      | (None, d, m) \<Rightarrow> resolveEach opts mf env flds ys d m)"
proof (induction xs arbitrary: data metadata)
  case Nil
  then show ?case by simp
next
  case (Cons x xs)
  obtain name v where x: "x = (name, v)" by (cases x)
  show ?case
    unfolding x
    by (simp add: Cons.IH split: option.splits sum.splits prod.splits)
qed

section \<open>Namespaces merge\<close>

text \<open>
  A namespace merges its input. When a change call gives a namespace an object that names
  only some of the namespace's fields, every field \<open>k\<close> that the object does not name
  keeps its data (\<^verbatim>\<open>data[k]\<close> of the namespace) and its metadata
  (\<^verbatim>\<open>metadata.fields[k]\<close> of the namespace), whether the call succeeds or throws
  part-way. This is a statement about the namespace's own object. In the source that object
  is the very object that the namespace's \<^verbatim>\<open>initial()\<close> returned
  (\<^verbatim>\<open>data[name] = data[name] ?? initializedNamespace\<close>), and \<^verbatim>\<open>resolve\<close> assigns into
  it in place: an initializer that hands out one object to two namespaces makes a change of
  one a change of both. The embedding, where objects are values, does not see that.
\<close>

lemma namespace_fields_not_in_input_untouched:
  assumes "resolveNamespace opts mf env s v path data metadata = (err, data', metadata')"
    and "isPlainObject v" and "k \<notin> fst ` set (ownEntries v)"
  shows "getProp data' k = getProp data k \<and>
    (case getProp metadata' ''fields'' of Inl e \<Rightarrow> Inl e | Inr fm \<Rightarrow> getProp fm k) =
    (case getProp metadata ''fields'' of Inl e \<Rightarrow> Inl e | Inr fm \<Rightarrow> getProp fm k)"
proof -
  from assms(2) have ex: "expandShorthand s path v = Inr v"
    by (simp add: expandShorthand_def)
  show ?thesis
  proof (cases "getProp metadata ''fields''")
    case (Inl e)
    with assms ex show ?thesis by simp
  next
    case (Inr fm)
    show ?thesis
    proof (cases "fields s")
      case None
      with assms ex Inr show ?thesis by (simp add: noFields_def)
    next
      case (Some fs)
      obtain err1 d1 fm1
        where r: "resolveEach opts mf env fs (ownEntries v) data fm = (err1, d1, fm1)"
        by (cases "resolveEach opts mf env fs (ownEntries v) data fm") auto
      from resolveEach_frame [OF r assms(3)]
      have fr: "getProp d1 k = getProp data k" "getProp fm1 k = getProp fm k" by auto
      from assms ex Inr Some r
      have res: "data' = d1" "metadata' = putBack metadata ''fields'' fm1" by auto
      have "(case getProp (putBack metadata ''fields'' fm1) ''fields'' of
               Inl e \<Rightarrow> Inl e | Inr fm \<Rightarrow> getProp fm k) = getProp fm k"
      proof (cases "isPlainObject fm1 \<and> isPlainObject metadata")
        case True
        then show ?thesis
          by (auto simp: putBack_def isPlainObject_def update_conv' fr split: jsval.splits)
      next
        case False
        then have "putBack metadata ''fields'' fm1 = metadata"
          by (auto simp: putBack_def isPlainObject_def split: jsval.splits)
        with Inr show ?thesis by simp
      qed
      with res fr Inr show ?thesis by simp
    qed
  qed
qed

section \<open>Shorthands\<close>

text \<open>
  Claim C7. For a namespace with a shorthand function \<open>sh\<close>, a change call that gives
  the namespace a non-object value \<open>v\<close> returns exactly what the same call returns when it
  gives the namespace the object \<open>sh v\<close>: the same error or success, the same data, the
  same metadata, whatever else the input holds before and after that key.
\<close>

theorem shorthand_equals_longhand:
  assumes "map_of flds name = Some s" and "fields s = Some fs" and "shorthand s = Some sh"
    and "\<not> isPlainObject v" and "sh v = Inr longhand"
  shows "resolve opts mf env flds (JObj (pre @ (name, v) # post)) data metadata =
         resolve opts mf env flds (JObj (pre @ (name, JObj longhand) # post)) data metadata"
proof -
  have step: "resolveEach opts mf env flds ((name, v) # post) d m =
              resolveEach opts mf env flds ((name, JObj longhand) # post) d m" for d m
    using assms by (simp add: expandShorthand_def split: sum.splits)
  show ?thesis
    by (simp only: resolve.simps ownEntries_JObj resolveEach_append step)
qed

text \<open>\<^verbatim>\<open>change({a: 'v'})\<close> and \<^verbatim>\<open>change({a: {b: 'v'}})\<close> on the spec of the test suite.\<close>

theorem shorthand_equals_longhand_witness:
  "map_of shorthandSpec ''a'' = Some shorthandNamespace
   \<and> \<not> isPlainObject (JStr ''v'')
   \<and> resolve noOptions FromSet () shorthandSpec (JObj [(''a'', JStr ''v'')])
       (JObj [(''a'', JObj [(''b'', JStr [])])])
       (JObj [(''a'', JObj [(''fields'', JObj [(''b'', initMetadataField (JStr []))])])])
     = resolve noOptions FromSet () shorthandSpec (JObj [(''a'', JObj [(''b'', JStr ''v'')])])
       (JObj [(''a'', JObj [(''b'', JStr [])])])
       (JObj [(''a'', JObj [(''fields'', JObj [(''b'', initMetadataField (JStr []))])])])
   \<and> fst (snd (resolve noOptions FromSet () shorthandSpec (JObj [(''a'', JStr ''v'')])
       (JObj [(''a'', JObj [(''b'', JStr [])])])
       (JObj [(''a'', JObj [(''fields'', JObj [(''b'', initMetadataField (JStr []))])])])))
     = JObj [(''a'', JObj [(''b'', JStr ''v'')])]"
proof -
  have spec: "map_of shorthandSpec ''a'' = Some shorthandNamespace"
    by (simp add: shorthandSpec_def)
  have ns: "fields shorthandNamespace = Some [(''b'', leafOf (JStr []))]"
    and sh: "shorthand shorthandNamespace = Some (\<lambda>v. Inr [(''b'', v)])"
    by (simp_all add: shorthandNamespace_def)
  have v: "\<not> isPlainObject (JStr ''v'')"
    by (simp add: isPlainObject_def)
  have expand: "(\<lambda>v. Inr [(''b'', v)]) (JStr ''v'') = (Inr [(''b'', JStr ''v'')] :: cause + props)"
    by simp
  have run: "fst (snd (resolve noOptions FromSet () shorthandSpec
       (JObj [(''a'', JObj [(''b'', JStr ''v'')])])
       (JObj [(''a'', JObj [(''b'', JStr [])])])
       (JObj [(''a'', JObj [(''fields'', JObj [(''b'', initMetadataField (JStr []))])])])))
     = JObj [(''a'', JObj [(''b'', JStr ''v'')])]"
    by (simp add: example_defs engine_defs inherited_defs)
  from shorthand_equals_longhand [OF spec ns sh v expand, of noOptions FromSet "()" "[]" "[]"
      "JObj [(''a'', JObj [(''b'', JStr [])])]"
      "JObj [(''a'', JObj [(''fields'', JObj [(''b'', initMetadataField (JStr []))])])]"]
  have "resolve noOptions FromSet () shorthandSpec (JObj [(''a'', JStr ''v'')])
       (JObj [(''a'', JObj [(''b'', JStr [])])])
       (JObj [(''a'', JObj [(''fields'', JObj [(''b'', initMetadataField (JStr []))])])])
     = resolve noOptions FromSet () shorthandSpec (JObj [(''a'', JObj [(''b'', JStr ''v'')])])
       (JObj [(''a'', JObj [(''b'', JStr [])])])
       (JObj [(''a'', JObj [(''fields'', JObj [(''b'', initMetadataField (JStr []))])])])"
    by simp
  with spec v run show ?thesis by simp
qed

section \<open>Unknown settings\<close>


text \<open>
  The lookup \<^verbatim>\<open>fields[inputFieldName]\<close> also finds what the spec object inherits. A key
  such as \<^verbatim>\<open>toString\<close>, for which the spec has no specifier, is resolved as a leaf without
  fixup, validator or type mapper: \<^verbatim>\<open>change({ toString: 1 })\<close> does not throw and
  commits \<^verbatim>\<open>data.toString = 1\<close>; the writes to \<^verbatim>\<open>metadata.toString\<close> land on the
  inherited function.
\<close>

lemma inherited_key_resolved_as_leaf:
  "map_of recordSpec ''toString'' = None
   \<and> resolve noOptions FromSet () recordSpec (JObj [(''toString'', JNum 1)])
        (JObj [(''a'', JStr []), (''r'', JObj [])])
        (JObj [(''a'', initMetadataField (JStr [])), (''r'', initMetadataRecord (JObj []))])
     = (None, JObj [(''a'', JStr []), (''r'', JObj []), (''toString'', JNum 1)],
        JObj [(''a'', initMetadataField (JStr [])), (''r'', initMetadataRecord (JObj []))])"
  by (simp add: example_defs engine_defs inherited_defs)




section \<open>Records given a non-object\<close>




section \<open>The dead branch of the resolver\<close>

lemma isUnknownSpecifierKind_simps [simp]:
  "isUnknownSpecifierKind (UnknownSpecifierKind n)"
  "\<not> isUnknownSpecifierKind (UnknownSetting a)"
  "\<not> isUnknownSpecifierKind (NotANamespace a v)"
  "\<not> isUnknownSpecifierKind (ShorthandNotSupported a v)"
  "\<not> isUnknownSpecifierKind (ShorthandError a v c)"
  "\<not> isUnknownSpecifierKind RecordNonObject"
  "\<not> isUnknownSpecifierKind (FixupError a v c)"
  "\<not> isUnknownSpecifierKind (OnFixupError a c)"
  "\<not> isUnknownSpecifierKind (ValidationRuntimeError a v c)"
  "\<not> isUnknownSpecifierKind (ValidationFailed a v ms)"
  "\<not> isUnknownSpecifierKind (TypeMapperError a c)"
  "\<not> isUnknownSpecifierKind (InitializerError a c)"
  "\<not> isUnknownSpecifierKind (InvalidInitializerKind a v)"
  "\<not> isUnknownSpecifierKind (InvalidTypeMapper a v)"
  "\<not> isUnknownSpecifierKind TypeError"
  "\<not> isUnknownSpecifierKind (Thrown c)"
  by (simp_all add: isUnknownSpecifierKind_def)

lemma getProp_kind: "getProp obj k = Inl e \<Longrightarrow> \<not> isUnknownSpecifierKind e"
  by (auto simp: getProp_def split: if_splits option.splits)

lemma setProp_kind: "setProp obj k v = Inl e \<Longrightarrow> \<not> isUnknownSpecifierKind e"
  by (auto simp: setProp_def split: jsval.splits)

lemma applyMapType_kind: "applyMapType s v k = Inl e \<Longrightarrow> \<not> isUnknownSpecifierKind e"
  by (auto simp: applyMapType_def runTypeMapper_def split: if_splits type_mapper.splits sum.splits)

lemma runInitializer_kind: "runInitializer env s k d = Inl e \<Longrightarrow> \<not> isUnknownSpecifierKind e"
  by (auto simp: runInitializer_def
      split: option.splits initializer.splits jsval.splits sum.splits dest: getProp_kind)

lemma commit_kind: "commit mf k v d m = (Some e, d', m') \<Longrightarrow> \<not> isUnknownSpecifierKind e"
  by (auto simp: commit_def commitMetadata_def split: sum.splits if_splits
      dest: getProp_kind setProp_kind)

lemma resolveLeaf_kind:
  "resolveLeaf opts mf s k v d m = (Some e, d', m') \<Longrightarrow> \<not> isUnknownSpecifierKind e"
  by (auto simp: resolveLeaf_def runFixup_def runValidate_def
      split: sum.splits option.splits dest: commit_kind applyMapType_kind)

lemma seedNamespace_kind: "seedNamespace env s k d m = Inl e \<Longrightarrow> \<not> isUnknownSpecifierKind e"
  by (auto simp: seedNamespace_def callInitial_def
      split: sum.splits option.splits initializer.splits if_splits
      dest: getProp_kind setProp_kind)

lemma recordSeed_kind: "recordSeed env s k d = Inl e \<Longrightarrow> \<not> isUnknownSpecifierKind e"
  by (auto simp: recordSeed_def split: if_splits dest: runInitializer_kind)

lemma initLeaf_kind: "initLeaf env s k d m = Inl e \<Longrightarrow> \<not> isUnknownSpecifierKind e"
  by (auto simp: initLeaf_def split: sum.splits
      dest: runInitializer_kind applyMapType_kind setProp_kind)

lemma storeRecord_kind: "storeRecord k ad am d m = Inl e \<Longrightarrow> \<not> isUnknownSpecifierKind e"
  by (auto simp: storeRecord_def split: sum.splits dest: getProp_kind setProp_kind)

lemma expandShorthand_kind: "expandShorthand s p v = Inl e \<Longrightarrow> \<not> isUnknownSpecifierKind e"
  by (auto simp: expandShorthand_def split: if_splits sum.splits)

lemma addRecordEntry_kind:
  "addRecordEntry k d0 m0 d m = (Some e, d', m') \<Longrightarrow> \<not> isUnknownSpecifierKind e"
  by (auto simp: addRecordEntry_def split: sum.splits dest: getProp_kind setProp_kind)

lemma noFields_kind: "noFields v d m = (Some e, d', m') \<Longrightarrow> \<not> isUnknownSpecifierKind e"
  by (auto simp: noFields_def split: if_splits)

lemmas step_kind =
  getProp_kind setProp_kind commit_kind resolveLeaf_kind seedNamespace_kind
  recordSeed_kind initLeaf_kind storeRecord_kind expandShorthand_kind
  addRecordEntry_kind noFields_kind

text \<open>
  No function of the engine ever returns the error of the branch, by induction over the
  calls of the resolver and the initializer.
\<close>

lemma engine_kind:
  "\<forall>e d' m'. resolve opts mf env flds input data metadata = (Some e, d', m')
     \<longrightarrow> \<not> isUnknownSpecifierKind e"
  "\<forall>e d' m'. resolveEach opts mf env flds entries data metadata = (Some e, d', m')
     \<longrightarrow> \<not> isUnknownSpecifierKind e"
  "\<forall>e d' m'. resolveNamespace opts mf env s v path data metadata = (Some e, d', m')
     \<longrightarrow> \<not> isUnknownSpecifierKind e"
  "\<forall>e d' m'. resolveRecord opts mf env s v data metadata = (Some e, d', m')
     \<longrightarrow> \<not> isUnknownSpecifierKind e"
  "\<forall>e d' m'. resolveRecordEach opts mf env s entries data metadata = (Some e, d', m')
     \<longrightarrow> \<not> isUnknownSpecifierKind e"
  "\<forall>e. initialize env flds = Inl e \<longrightarrow> \<not> isUnknownSpecifierKind e"
  "\<forall>e. doInitialize env flds data metadata = Inl e \<longrightarrow> \<not> isUnknownSpecifierKind e"
  "\<forall>e. initRecordEntries env es seeds ad am = Inl e \<longrightarrow> \<not> isUnknownSpecifierKind e"
proof (induction opts mf env flds input data metadata
    and opts mf env flds entries data metadata
    and opts mf env s v path data metadata
    and opts mf env s v data metadata
    and opts mf env s entries data metadata
    and env flds
    and env flds data metadata
    and env es seeds ad am
    rule: resolve_resolveEach_resolveNamespace_resolveRecord_resolveRecordEach_initialize_doInitialize_initRecordEntries.induct)
  case (1 opts metadataFrom env flds input data metadata)
  then show ?case by simp
next
  case (2 opts metadataFrom env flds data metadata)
  then show ?case by simp
next
  case (3 opts metadataFrom env flds inputFieldName inputFieldValue rest data metadata)
  show ?case
    apply (subst resolveEach.simps)
    apply (intro allI impI)
    apply (simp split: option.splits if_splits sum.splits prod.splits)
    using 3
    apply (auto dest: step_kind)
    done
next
  case (4 opts metadataFrom env s inputFieldValue path data metadata)
  show ?case
    apply (subst resolveNamespace.simps)
    apply (intro allI impI)
    apply (simp split: option.splits if_splits sum.splits prod.splits)
    using 4
    apply (auto dest: step_kind)
    done
next
  case (5 opts metadataFrom env s inputFieldValue data metadata)
  then show ?case by simp
next
  case (6 opts metadataFrom env s data metadata)
  then show ?case by simp
next
  case (7 opts metadataFrom env s key inputEntryValue rest data metadata)
  show ?case
    apply (subst resolveRecordEach.simps)
    apply (intro allI impI)
    apply (simp split: option.splits if_splits sum.splits prod.splits)
    using 7
    apply (auto dest: step_kind)
    done
next
  case (8 env flds)
  then show ?case by simp
next
  case (9 env data metadata)
  then show ?case by simp
next
  case (10 env inputFieldName s rest data metadata)
  show ?case
    apply (subst doInitialize.simps)
    apply (intro allI impI)
    apply (simp split: option.splits if_splits sum.splits prod.splits)
    using 10
    apply (auto dest: step_kind)
    done
next
  case (11 env es accData accMetadata)
  then show ?case by simp
next
  case (12 env es k v rest accData accMetadata)
  show ?case
    apply (subst initRecordEntries.simps)
    apply (intro allI impI)
    apply (simp split: option.splits if_splits sum.splits prod.splits)
    using 12
    apply (auto dest: step_kind)
    done
qed

text \<open>
  Claim C10. The branch of \<^verbatim>\<open>resolve\<close> that throws \<^verbatim>\<open>Unknown kind of specifier\<close> is
  dead. Its guard is the guard of the not-a-namespace branch before it with two conjuncts
  swapped; an input that satisfies it has thrown \<open>NotANamespace\<close> already; and no call of
  \<^verbatim>\<open>resolve\<close>, on any arguments, returns the error of the branch.
\<close>

theorem unknown_specifier_kind_unreachable:
  "((isPlainObject v \<and> entryFields s = None \<and> fields s = None)
      = (isPlainObject v \<and> fields s = None \<and> entryFields s = None))
   \<and> (map_of flds name = Some s \<and> isPlainObject v \<and> entryFields s = None \<and> fields s = None
        \<longrightarrow> resolve opts mf env flds (JObj ((name, v) # rest)) data metadata
              = (Some (NotANamespace name v), data, metadata))
   \<and> fst (resolve opts mf env flds input data metadata) \<noteq> Some (UnknownSpecifierKind n)"
proof -
  have "fst (resolve opts mf env flds input data metadata) \<noteq> Some (UnknownSpecifierKind n)"
  proof
    assume a: "fst (resolve opts mf env flds input data metadata) = Some (UnknownSpecifierKind n)"
    then obtain d' m'
      where "resolve opts mf env flds input data metadata = (Some (UnknownSpecifierKind n), d', m')"
      by (cases "resolve opts mf env flds input data metadata") auto
    with engine_kind(1) [of opts mf env flds input data metadata] show False
      by auto
  qed
  then show ?thesis by auto
qed

text \<open>An object given to the leaf \<^verbatim>\<open>a\<close> satisfies the guard.\<close>

theorem unknown_specifier_kind_unreachable_witness:
  "map_of recordSpec ''a'' = Some (leafOf (JStr []))
   \<and> isPlainObject (JObj [])
   \<and> entryFields (leafOf (JStr [])) = None \<and> fields (leafOf (JStr [])) = None
   \<and> resolve noOptions FromSet () recordSpec (JObj [(''a'', JObj [])])
        (JObj [(''a'', JStr []), (''r'', JObj [])])
        (JObj [(''a'', initMetadataField (JStr [])), (''r'', initMetadataRecord (JObj []))])
     = (Some (NotANamespace ''a'' (JObj [])), JObj [(''a'', JStr []), (''r'', JObj [])],
        JObj [(''a'', initMetadataField (JStr [])), (''r'', initMetadataRecord (JObj []))])"
proof -
  have spec: "map_of recordSpec ''a'' = Some (leafOf (JStr []))"
    by (simp add: recordSpec_def)
  have leaf: "entryFields (leafOf (JStr [])) = None" "fields (leafOf (JStr [])) = None"
    by (simp_all add: leafOf_def)
  from unknown_specifier_kind_unreachable [of "JObj []" "leafOf (JStr [])" recordSpec "''a''"
      noOptions FromSet "()" "[]" "JObj [(''a'', JStr []), (''r'', JObj [])]"
      "JObj [(''a'', initMetadataField (JStr [])), (''r'', initMetadataRecord (JObj []))]"]
    spec leaf
  show ?thesis by simp
qed

section \<open>The order of the commit pipeline\<close>

text \<open>
  Claim C1. In a change call, a leaf whose specifier defines \<^verbatim>\<open>fixup\<close>, \<^verbatim>\<open>validate\<close>
  and \<^verbatim>\<open>mapType\<close> goes through them in that order. With \<open>r\<close> the result of the fixup
  on the input value \<open>v\<close> and \<open>w\<close> the corrected value (the fixup's value when it
  returned one, \<open>v\<close> itself when it returned null), and a fixup handler that does not throw:
  the validator is called on \<open>w\<close> and its verdict alone decides between a validation
  error and going on; the type mapper is called on the same \<open>w\<close>, after the validator
  accepted it; and what is committed, in the data and as \<^verbatim>\<open>value\<close> of the metadata with
  \<^verbatim>\<open>from = 'set'\<close>, is the result \<open>u\<close> of the type mapper. Nothing is asked of the
  validator on the original \<open>v\<close>: a value that fails validation commits when its
  correction passes.
\<close>

theorem leaf_pipeline_order:
  assumes "map_of flds name = Some s" and "fields s = None" and "entryFields s = None"
    and "fixup s = Some f" and "validate s = Some g" and "mapType s = Some (MapFn h)"
    and "\<not> isPlainObject v"
    and "f v = Inr r" and "w = (case r of None \<Rightarrow> v | Some fr \<Rightarrow> fr_value fr)"
    and "\<forall>handler fr. onFixup opts = Some handler \<and> r = Some fr \<longrightarrow>
           handler \<lparr>fi_before = v, fi_after = fr_value fr, fi_name = name,
                    fi_messages = fr_messages fr\<rparr> = None"
    and "data = JObj ps" and "metadata = JObj ms" and "map_of ms name = Some (JObj node)"
  shows "resolve opts FromSet env flds (JObj ((name, v) # rest)) data metadata =
    (case g w of
       Inl c \<Rightarrow> (Some (ValidationRuntimeError name w c), data, metadata)
     | Inr (Some messages) \<Rightarrow> (Some (ValidationFailed name w messages), data, metadata)
     | Inr None \<Rightarrow> (case h w of
          Inl c \<Rightarrow> (Some (TypeMapperError name c), data, metadata)
        | Inr u \<Rightarrow> resolve opts FromSet env flds (JObj rest)
            (JObj (AList.update name u ps))
            (JObj (AList.update name
               (JObj (AList.update ''from'' (JStr ''set'') (AList.update ''value'' u node))) ms))))"
proof -
  have fixed: "runFixup opts s name v = Inr w"
  proof (cases r)
    case None
    with assms(4,8,9) show ?thesis by (simp add: runFixup_def)
  next
    case (Some fr)
    show ?thesis
    proof (cases "onFixup opts")
      case None
      with Some assms(4,8,9) show ?thesis by (simp add: runFixup_def)
    next
      case (Some handler)
      with assms(10) \<open>r = Some fr\<close>
      have "handler \<lparr>fi_before = v, fi_after = fr_value fr, fi_name = name,
                    fi_messages = fr_messages fr\<rparr> = None"
        by blast
      with Some \<open>r = Some fr\<close> assms(4,8,9)
      show ?thesis by (simp add: runFixup_def)
    qed
  qed
  have val: "runValidate s name w =
      (case g w of Inl c \<Rightarrow> Inl (ValidationRuntimeError name w c)
       | Inr (Some messages) \<Rightarrow> Inl (ValidationFailed name w messages)
       | Inr None \<Rightarrow> Inr w)"
    using assms(5) by (simp add: runValidate_def)
  have map: "applyMapType s w name =
      (case h w of Inl c \<Rightarrow> Inl (TypeMapperError name c) | Inr u \<Rightarrow> Inr u)"
    using assms(6) by (simp add: applyMapType_def hasMapType_def runTypeMapper_def)
  have com: "commit FromSet name u data metadata =
      (None, JObj (AList.update name u ps),
       JObj (AList.update name
         (JObj (AList.update ''from'' (JStr ''set'') (AList.update ''value'' u node))) ms))" for u
    using assms(11,12,13)
    by (simp add: commit_def commitMetadata_def fromValue_def putBack_def)
  show ?thesis
  proof (cases "g w")
    case (Inl c)
    with assms(1,2,3,7) show ?thesis
      by (simp add: resolveLeaf_def fixed val)
  next
    case (Inr verdict)
    show ?thesis
    proof (cases verdict)
      case (Some messages)
      with Inr assms(1,2,3,7) show ?thesis
        by (simp add: resolveLeaf_def fixed val)
    next
      case None
      show ?thesis
      proof (cases "h w")
        case (Inl c)
        with None Inr assms(1,2,3,7) show ?thesis
          by (simp add: resolveLeaf_def fixed val map)
      next
        case mapped: (Inr u)
        with None Inr assms(1,2,3,7) show ?thesis
          by (simp add: resolveLeaf_def fixed val map com)
      qed
    qed
  qed
qed

text \<open>
  The validator rejects \<^verbatim>\<open>'foo'\<close>, the fixup corrects it to \<^verbatim>\<open>'/foo'\<close>, which the
  validator accepts; the type mapper's \<^verbatim>\<open>['/foo']\<close> is committed.
\<close>

theorem leaf_pipeline_order_witness:
  "slashValidate (JStr ''foo'') = Inr (Some [''no leading slash''])
   \<and> slashFixup (JStr ''foo'') = Inr (Some \<lparr>fr_value = JStr ''/foo'',
        fr_messages = [''must have leading slash'']\<rparr>)
   \<and> slashValidate (JStr ''/foo'') = Inr None
   \<and> wrap (JStr ''/foo'') = Inr (JArr [JStr ''/foo''])
   \<and> resolve noOptions FromSet () pathSpec (JObj [(''path'', JStr ''foo'')])
        (JObj [(''path'', JArr [JStr ''foo''])])
        (JObj [(''path'', JObj [(''type'', JStr ''leaf''), (''from'', JStr ''initial''),
           (''value'', JArr [JStr ''foo'']), (''initial'', JArr [JStr ''foo''])])])
     = (None, JObj [(''path'', JArr [JStr ''/foo''])],
        JObj [(''path'', JObj [(''type'', JStr ''leaf''), (''from'', JStr ''set''),
           (''value'', JArr [JStr ''/foo'']), (''initial'', JArr [JStr ''foo''])])])"
proof -
  have spec: "map_of pathSpec ''path'' = Some pathLeaf"
    by (simp add: pathSpec_def)
  have leaf: "fields pathLeaf = None" "entryFields pathLeaf = None"
    and hooks: "fixup pathLeaf = Some slashFixup" "validate pathLeaf = Some slashValidate"
      "mapType pathLeaf = Some (MapFn wrap)"
    by (simp_all add: pathLeaf_def)
  have v: "\<not> isPlainObject (JStr ''foo'')"
    by (simp add: isPlainObject_def)
  have f: "slashFixup (JStr ''foo'') = Inr (Some \<lparr>fr_value = JStr ''/foo'',
        fr_messages = [''must have leading slash'']\<rparr>)"
    by (simp add: slashFixup_def)
  have w: "JStr ''/foo'' = (case Some \<lparr>fr_value = JStr ''/foo'',
        fr_messages = [''must have leading slash'']\<rparr> of None \<Rightarrow> JStr ''foo''
        | Some fr \<Rightarrow> fr_value fr)"
    by simp
  have quiet: "\<forall>handler fr. onFixup noOptions = Some handler \<and>
      Some \<lparr>fr_value = JStr ''/foo'', fr_messages = [''must have leading slash'']\<rparr> = Some fr \<longrightarrow>
      handler \<lparr>fi_before = JStr ''foo'', fi_after = fr_value fr, fi_name = ''path'',
               fi_messages = fr_messages fr\<rparr> = None"
    by (simp add: noOptions_def)
  have node: "map_of [(''path'', JObj [(''type'', JStr ''leaf''), (''from'', JStr ''initial''),
           (''value'', JArr [JStr ''foo'']), (''initial'', JArr [JStr ''foo''])])] ''path''
      = Some (JObj [(''type'', JStr ''leaf''), (''from'', JStr ''initial''),
           (''value'', JArr [JStr ''foo'']), (''initial'', JArr [JStr ''foo''])])"
    by simp
  have orig: "slashValidate (JStr ''foo'') = Inr (Some [''no leading slash''])"
    and fixed: "slashValidate (JStr ''/foo'') = Inr None"
    and mapped: "wrap (JStr ''/foo'') = Inr (JArr [JStr ''/foo''])"
    by (simp_all add: slashValidate_def wrap_def)
  have d: "JObj [(''path'', JArr [JStr ''foo''])] = JObj [(''path'', JArr [JStr ''foo''])]"
    and m: "JObj [(''path'', JObj [(''type'', JStr ''leaf''), (''from'', JStr ''initial''),
           (''value'', JArr [JStr ''foo'']), (''initial'', JArr [JStr ''foo''])])]
      = JObj [(''path'', JObj [(''type'', JStr ''leaf''), (''from'', JStr ''initial''),
           (''value'', JArr [JStr ''foo'']), (''initial'', JArr [JStr ''foo''])])]"
    by simp_all
  from leaf_pipeline_order [where f = slashFixup and g = slashValidate and h = wrap
      and v = "JStr ''foo''" and w = "JStr ''/foo''" and opts = noOptions and env = "()"
      and rest = "[]", OF spec leaf hooks v f w quiet d m node]
    orig f fixed mapped
  show ?thesis by simp
qed

section \<open>Initializer output\<close>

text \<open>
  Claim C3. During initialization (\<^verbatim>\<open>create\<close> and \<^verbatim>\<open>reset\<close> both run
  \<^verbatim>\<open>initialize\<close>, that is \<^verbatim>\<open>doInitialize\<close> on two empty objects) a leaf is initialized
  the same way whatever its \<^verbatim>\<open>fixup\<close> and \<^verbatim>\<open>validate\<close> are, so neither is consulted;
  and the value \<open>v\<close> returned by its \<^verbatim>\<open>initial()\<close> is committed as it is when there is
  no type mapper, and as the type mapper's result when there is one.
\<close>

theorem initializer_output_only_type_mapped:
  "doInitialize env ((name, Specifier i fx vd mt sh None None) # rest) data metadata
     = doInitialize env ((name, Specifier i None None mt sh None None) # rest) data metadata
   \<and> (i = Some (InitFn g) \<and> g env = Inr v \<and> data = JObj ps \<and> metadata = JObj ms \<longrightarrow>
       doInitialize env ((name, Specifier i fx vd mt sh None None) # rest) data metadata =
        (case mt of
           None \<Rightarrow> doInitialize env rest (JObj (AList.update name v ps))
                     (JObj (AList.update name (initMetadataField v) ms))
         | Some (MapFn h) \<Rightarrow> (case h v of
               Inl c \<Rightarrow> Inl (TypeMapperError name c)
             | Inr u \<Rightarrow> doInitialize env rest (JObj (AList.update name u ps))
                     (JObj (AList.update name (initMetadataField u) ms)))
         | Some (MapStatic t) \<Rightarrow>
             (if truthy t
              then Inl (TypeMapperError name ''TypeError: typeMapper is not a function'')
              else doInitialize env rest (JObj (AList.update name v ps))
                     (JObj (AList.update name (initMetadataField v) ms)))))"
  by (auto simp: initLeaf_def runInitializer_def applyMapType_def hasMapType_def runTypeMapper_def
      split: option.splits type_mapper.splits sum.splits)

text \<open>
  The initial value \<^verbatim>\<open>'foo'\<close> would be corrected by the fixup and is rejected by the
  validator; \<^verbatim>\<open>create\<close> commits \<^verbatim>\<open>['foo']\<close>, the type mapper's result.
\<close>

theorem initializer_output_only_type_mapped_witness:
  "slashFixup (JStr ''foo'') \<noteq> Inr None
   \<and> slashValidate (JStr ''foo'') \<noteq> Inr None
   \<and> create True () noOptions pathSpec
     = Inr (Manager pathSpec noOptions (JObj [(''path'', JArr [JStr ''foo''])])
        (JObj [(''path'', JObj [(''type'', JStr ''leaf''), (''from'', JStr ''initial''),
           (''value'', JArr [JStr ''foo'']), (''initial'', JArr [JStr ''foo''])])]))"
proof -
  have hooks: "slashFixup (JStr ''foo'') \<noteq> Inr None" "slashValidate (JStr ''foo'') \<noteq> Inr None"
    by (simp_all add: slashFixup_def slashValidate_def)
  have i: "always (JStr ''foo'') = Some (InitFn (\<lambda>_. Inr (JStr ''foo'')))"
    by (simp add: always_def)
  from initializer_output_only_type_mapped [of "()" "''path''" "always (JStr ''foo'')"
      "Some slashFixup" "Some slashValidate" "Some (MapFn wrap)" None "[]" "JObj []" "JObj []"
      "\<lambda>_. Inr (JStr ''foo'')" "JStr ''foo''" "[]" "[]"] i
  have "doInitialize () pathSpec (JObj []) (JObj [])
     = Inr (JObj [(''path'', JArr [JStr ''foo''])],
        JObj [(''path'', JObj [(''type'', JStr ''leaf''), (''from'', JStr ''initial''),
           (''value'', JArr [JStr ''foo'']), (''initial'', JArr [JStr ''foo''])])])"
    by (simp add: example_defs engine_defs inherited_defs)
  with hooks show ?thesis
    by (simp add: example_defs engine_defs inherited_defs)
qed

section \<open>The original settings\<close>

text \<open>
  Claim C2 does not hold of the code for a record with a seed. \<^verbatim>\<open>metadataToData\<close>
  recurses through \<^verbatim>\<open>fields\<close> and otherwise copies \<^verbatim>\<open>info.initial\<close>; the
  \<^verbatim>\<open>initial\<close> of a record is the snapshot of the metadata of its entries, not their
  data. Right after \<^verbatim>\<open>create\<close>, before any change, \<^verbatim>\<open>original()\<close> of the spec
  \<^verbatim>\<open>{ a: ..., r: { entryFields: { n: ... }, initial: c({ k: { n: 2 } }) } }\<close> holds the
  leaf metadata node of \<^verbatim>\<open>n\<close> where the data holds \<^verbatim>\<open>2\<close>.
\<close>

theorem original_of_seeded_record:
  "create True () noOptions recordSpec
     = Inr (Manager recordSpec noOptions
         (JObj [(''a'', JStr []), (''r'', JObj [(''k'', JObj [(''n'', JNum 2)])])])
         (JObj [(''a'', initMetadataField (JStr [])),
                (''r'', initMetadataRecord
                   (JObj [(''k'', JObj [(''n'', initMetadataField (JNum 2))])]))]))
   \<and> original (Manager recordSpec noOptions
         (JObj [(''a'', JStr []), (''r'', JObj [(''k'', JObj [(''n'', JNum 2)])])])
         (JObj [(''a'', initMetadataField (JStr [])),
                (''r'', initMetadataRecord
                   (JObj [(''k'', JObj [(''n'', initMetadataField (JNum 2))])]))]))
     = Inr (JObj [(''a'', JStr []),
                  (''r'', JObj [(''k'', JObj [(''n'', initMetadataField (JNum 2))])])])
   \<and> JObj [(''a'', JStr []),
            (''r'', JObj [(''k'', JObj [(''n'', initMetadataField (JNum 2))])])]
     \<noteq> JObj [(''a'', JStr []), (''r'', JObj [(''k'', JObj [(''n'', JNum 2)])])]"
  by (simp add: example_defs engine_defs inherited_defs)

section \<open>Namespace seeds\<close>

text \<open>
  Claim C5 as stated fails: a leaf's own \<^verbatim>\<open>initial()\<close> runs whether or not the seed of
  the namespace covers the field, and its result replaces the seed's value. The seed gives
  \<^verbatim>\<open>x = 1\<close>, the leaf \<^verbatim>\<open>x\<close> initializes to 2, and the initialized data has
  \<^verbatim>\<open>x = 2\<close>.
\<close>

theorem seed_overridden_counterexample:
  "callInitial () seededNamespace = Inr (JObj [(''x'', JNum 1), (''y'', JNum 5)])
   \<and> fields seededNamespace = Some [(''x'', leafOf (JNum 2)),
        (''y'', Specifier None None None None None None None), (''z'', leafOf (JNum 3))]
   \<and> initialize () seededSpec
     = Inr (JObj [(''ns'', JObj [(''x'', JNum 2), (''y'', JNum 5), (''z'', JNum 3)])],
        JObj [(''ns'', JObj [(''fields'', JObj
          [(''x'', initMetadataField (JNum 2)),
           (''y'', initMetadataField (JNum 5)),
           (''z'', initMetadataField (JNum 3))])])])"
  by (simp add: example_defs engine_defs inherited_defs)

text \<open>Initialization of one field touches that field only, and stops at the first error.\<close>

lemma seedNamespace_frame:
  "seedNamespace env s name d m = Inr (d', m') \<Longrightarrow> k \<noteq> name \<Longrightarrow>
     getProp d' k = getProp d k \<and> getProp m' k = getProp m k"
  by (auto simp: seedNamespace_def getProp_setProp_other split: sum.splits)

lemma storeRecord_frame:
  "storeRecord name ad am d m = Inr (d', m') \<Longrightarrow> k \<noteq> name \<Longrightarrow>
     getProp d' k = getProp d k \<and> getProp m' k = getProp m k"
  by (auto simp: storeRecord_def getProp_setProp_other split: sum.splits)

lemma initLeaf_frame:
  "initLeaf env s name d m = Inr (d', m') \<Longrightarrow> k \<noteq> name \<Longrightarrow>
     getProp d' k = getProp d k \<and> getProp m' k = getProp m k"
  by (auto simp: initLeaf_def getProp_setProp_other split: sum.splits)

lemma doInitialize_frame:
  "doInitialize env flds data metadata = Inr (d', m') \<Longrightarrow> k \<notin> fst ` set flds \<Longrightarrow>
     getProp d' k = getProp data k \<and> getProp m' k = getProp metadata k"
proof (induction flds arbitrary: data metadata)
  case Nil
  then show ?case by simp
next
  case (Cons x flds)
  obtain name s where x: "x = (name, s)" by (cases x)
  from Cons.prems x have ne: "k \<noteq> name" and notin: "k \<notin> fst ` set flds" by auto
  note IH = Cons.IH [OF _ notin]
  from Cons.prems(1) show ?case
    unfolding x
    apply (simp split: option.splits sum.splits prod.splits)
    using ne IH
      apply (auto simp: getProp_putBack_other
        dest: seedNamespace_frame storeRecord_frame initLeaf_frame)
    done
qed

lemma doInitialize_append:
  "doInitialize env (xs @ ys) data metadata =
     (case doInitialize env xs data metadata of
        Inl e \<Rightarrow> Inl e
      | Inr (d, m) \<Rightarrow> doInitialize env ys d m)"
proof (induction xs arbitrary: data metadata)
  case Nil
  then show ?case by simp
next
  case (Cons x xs)
  obtain name s where x: "x = (name, s)" by (cases x)
  show ?case
    unfolding x
    by (simp add: Cons.IH split: option.splits sum.splits prod.splits)
qed

lemma putBack_object: "isPlainObject obj \<Longrightarrow> isPlainObject (putBack obj k c)"
  by (cases obj) (simp_all add: putBack_def isPlainObject_def)

lemma setProp_object:
  "setProp obj k v = Inr obj' \<Longrightarrow> isPlainObject obj \<Longrightarrow> isPlainObject obj'"
  by (auto dest: setProp_object_Inr)

lemma doInitialize_object:
  "doInitialize env flds data metadata = Inr (d', m') \<Longrightarrow> isPlainObject data \<Longrightarrow>
     isPlainObject d'"
proof (induction flds arbitrary: data metadata)
  case Nil
  then show ?case by simp
next
  case (Cons x flds)
  obtain name s where x: "x = (name, s)" by (cases x)
  from Cons.prems(1) show ?case
    unfolding x
    apply (simp split: option.splits sum.splits prod.splits)
    using Cons.IH Cons.prems(2)
      apply (auto simp: seedNamespace_def storeRecord_def initLeaf_def
        split: sum.splits intro: putBack_object dest: setProp_object)
    done
qed


lemma getProp_putBack_same:
  "isPlainObject obj \<Longrightarrow> isPlainObject c \<Longrightarrow> getProp (putBack obj k c) k = Inr c"
  by (cases obj) (simp_all add: putBack_def isPlainObject_def update_conv')

text \<open>
  Claim C5, amended. Take a namespace with its own \<^verbatim>\<open>initial()\<close> that returns the plain
  object \<open>seed\<close>, seen for the first time (the data holds \<^verbatim>\<open>undefined\<close> or \<^verbatim>\<open>null\<close>
  under its name). Initialization seeds the namespace's data with \<open>seed\<close> and then
  initializes the namespace's fields on it. For a leaf field \<open>k\<close> of the namespace, when
  initialization succeeds: if the leaf has an initializer function, the field holds that
  function's result (through the type mapper when there is one), whether or not the seed
  covers \<open>k\<close>; if the leaf has no initializer and \<open>k\<close> is not the name of a member
  that every object inherits from \<^verbatim>\<open>Object.prototype\<close>, the field holds the seed's value
  for \<open>k\<close> (through the type mapper when there is one), with \<^verbatim>\<open>undefined\<close> in its place
  when the seed's value is \<^verbatim>\<open>null\<close> or the seed does not cover \<open>k\<close>.
\<close>

theorem namespace_seed_and_leaf_initializers:
  assumes ns: "fields s = Some (before @ (k, l) # after)"
    and seed: "initial s = Some (InitFn sd)" "sd env = Inr (JObj seed)"
    and fresh: "getProp (JObj ps) name = Inr d0" "nullish d0"
    and leaf: "fields l = None" "entryFields l = None"
    and named: "(\<forall>i. initial l \<noteq> Some (InitFn i)) \<longrightarrow> k \<notin> set objectPrototype"
    and distinct: "k \<notin> fst ` set before" "k \<notin> fst ` set after" "name \<notin> fst ` set rest"
    and ok: "doInitialize env ((name, s) # rest) (JObj ps) metadata = Inr (data', metadata')"
  shows "\<exists>nd x. getProp data' name = Inr nd \<and> getProp nd k = Inr x \<and>
      (case initial l of
         Some (InitFn i) \<Rightarrow> (\<exists>v. i env = Inr v \<and> applyMapType l v k = Inr x)
       | _ \<Rightarrow> applyMapType l
            (case map_of seed k of Some sv \<Rightarrow> coalesce sv JUndefined | None \<Rightarrow> JUndefined) k
              = Inr x)"
proof -
  from ok ns obtain data1 metadata1 d node mf nd mf'
    where sn: "seedNamespace env s name (JObj ps) metadata = Inr (data1, metadata1)"
      and d: "getProp data1 name = Inr d"
      and nested: "doInitialize env (before @ (k, l) # after) d mf = Inr (nd, mf')"
      and tail: "doInitialize env rest (putBack data1 name nd)
          (putBack metadata1 name (putBack node ''fields'' mf')) = Inr (data', metadata')"
    by (auto split: sum.splits prod.splits)
  from sn seed fresh have data1: "data1 = JObj (AList.update name (JObj seed) ps)"
    by (auto simp: seedNamespace_def callInitial_def coalesce_def nullish_def
        simp del: getProp_JObj split: sum.splits)
  with d have dseed: "d = JObj seed"
    by (simp add: update_conv')
  from nested obtain d1 m1
    where pre: "doInitialize env before d mf = Inr (d1, m1)"
      and step: "doInitialize env ((k, l) # after) d1 m1 = Inr (nd, mf')"
    by (auto simp: doInitialize_append split: sum.splits)
  from doInitialize_frame [OF pre distinct(1)] dseed
  have d1k: "getProp d1 k = getProp (JObj seed) k" by simp
  from step leaf obtain d2 m2
    where il: "initLeaf env l k d1 m1 = Inr (d2, m2)"
      and post: "doInitialize env after d2 m2 = Inr (nd, mf')"
    by (auto split: sum.splits prod.splits)
  from il obtain v0 x
    where ri: "runInitializer env l k d1 = Inr v0"
      and mt: "applyMapType l v0 k = Inr x"
      and sp: "setProp d1 k x = Inr d2"
    by (auto simp: initLeaf_def split: sum.splits)
  have "isPlainObject d1"
    using doInitialize_object [OF pre] dseed by simp
  from doInitialize_frame [OF post distinct(2)] getProp_setProp_same [OF sp this]
  have ndk: "getProp nd k = Inr x" by simp
  have "isPlainObject nd"
    using doInitialize_object [OF nested] dseed by simp
  with data1 have "getProp (putBack data1 name nd) name = Inr nd"
    by (simp add: getProp_putBack_same)
  with doInitialize_frame [OF tail distinct(3)]
  have top: "getProp data' name = Inr nd" by simp
  have "case initial l of
         Some (InitFn i) \<Rightarrow> (\<exists>v. i env = Inr v \<and> applyMapType l v k = Inr x)
       | _ \<Rightarrow> applyMapType l
            (case map_of seed k of Some sv \<Rightarrow> coalesce sv JUndefined | None \<Rightarrow> JUndefined) k
              = Inr x"
    using ri mt d1k named
    by (auto simp: runInitializer_def coalesce_def nullish_def
        split: option.splits initializer.splits jsval.splits sum.splits)
  with top ndk show ?thesis by blast
qed

text \<open>The leaf \<^verbatim>\<open>y\<close> has no initializer and keeps the seed's 5.\<close>

theorem namespace_seed_and_leaf_initializers_witness:
  "fields seededNamespace = Some ([(''x'', leafOf (JNum 2))]
       @ (''y'', Specifier None None None None None None None) # [(''z'', leafOf (JNum 3))])
   \<and> initial seededNamespace = always (JObj [(''x'', JNum 1), (''y'', JNum 5)])
   \<and> getProp (JObj []) ''ns'' = Inr JUndefined
   \<and> ''y'' \<notin> set objectPrototype
   \<and> doInitialize () ((''ns'', seededNamespace) # []) (JObj []) (JObj [])
     = Inr (JObj [(''ns'', JObj [(''x'', JNum 2), (''y'', JNum 5), (''z'', JNum 3)])],
        JObj [(''ns'', JObj [(''fields'', JObj
          [(''x'', initMetadataField (JNum 2)),
           (''y'', initMetadataField (JNum 5)),
           (''z'', initMetadataField (JNum 3))])])])
   \<and> (\<exists>nd x. getProp (JObj [(''ns'', JObj [(''x'', JNum 2), (''y'', JNum 5), (''z'', JNum 3)])])
          ''ns'' = Inr nd \<and> getProp nd ''y'' = Inr x \<and> x = JNum 5)"
proof -
  have ns: "fields seededNamespace = Some ([(''x'', leafOf (JNum 2))]
       @ (''y'', Specifier None None None None None None None) # [(''z'', leafOf (JNum 3))])"
    by (simp add: seededNamespace_def)
  have seed: "initial seededNamespace
      = Some (InitFn (\<lambda>_. Inr (JObj [(''x'', JNum 1), (''y'', JNum 5)])))"
    "(\<lambda>_::unit. Inr (JObj [(''x'', JNum 1), (''y'', JNum 5)]) :: cause + jsval) ()
      = Inr (JObj [(''x'', JNum 1), (''y'', JNum 5)])"
    by (simp_all add: seededNamespace_def always_def)
  have fresh: "getProp (JObj []) ''ns'' = Inr JUndefined" "nullish JUndefined"
    by (simp_all add: nullish_def objectPrototype_def)
  have name: "''y'' \<notin> set objectPrototype"
    by (simp add: objectPrototype_def)
  then have named: "(\<forall>i. initial (Specifier None None None None None None None :: unit specifier)
      \<noteq> Some (InitFn i)) \<longrightarrow> ''y'' \<notin> set objectPrototype"
    by simp
  have leaf: "fields (Specifier None None None None None None None :: unit specifier) = None"
    "entryFields (Specifier None None None None None None None :: unit specifier) = None"
    by simp_all
  have distinct: "''y'' \<notin> fst ` set [(''x'', leafOf (JNum 2))]"
    "''y'' \<notin> fst ` set [(''z'', leafOf (JNum 3))]"
    "''ns'' \<notin> fst ` set ([] :: unit spec)"
    by simp_all
  have ok: "doInitialize () ((''ns'', seededNamespace) # []) (JObj []) (JObj [])
     = Inr (JObj [(''ns'', JObj [(''x'', JNum 2), (''y'', JNum 5), (''z'', JNum 3)])],
        JObj [(''ns'', JObj [(''fields'', JObj
          [(''x'', initMetadataField (JNum 2)),
           (''y'', initMetadataField (JNum 5)),
           (''z'', initMetadataField (JNum 3))])])])"
    by (simp add: example_defs engine_defs inherited_defs)
  from namespace_seed_and_leaf_initializers [OF ns seed fresh leaf named distinct ok]
  have "\<exists>nd x. getProp (JObj [(''ns'', JObj [(''x'', JNum 2), (''y'', JNum 5), (''z'', JNum 3)])])
          ''ns'' = Inr nd \<and> getProp nd ''y'' = Inr x \<and> x = JNum 5"
    by (simp add: applyMapType_def hasMapType_def coalesce_def nullish_def)
  with ns seed fresh(1) name ok show ?thesis
    by (simp add: always_def)
qed

section \<open>The \<open>from\<close> and \<open>initial\<close> of a leaf's metadata\<close>

lemma own_JObj [simp]: "own (JObj ps) k = map_of ps k"
  by (simp add: own_def)





lemma shaped_refl [simp]: "shaped a a"
  by (simp add: shaped_def)


lemma shaped_putBack [simp]: "shaped obj (putBack obj k c)"
  by (cases obj) (simp_all add: shaped_def putBack_def isPlainObject_def)




lemma keeps_refl [simp]: "keeps n n"
  by (simp add: keeps_def)


lemma kept_refl [simp]: "kept flds d m d m"
  by (simp add: kept_def)


lemma keptEntries_refl [simp]: "keptEntries es d m d m"
  by (simp add: keptEntries_def)




lemma liveEntry_head:
  "own d' e = own d e \<Longrightarrow>
   (case own m' ''value'' of None \<Rightarrow> None | Some mv \<Rightarrow> own mv e) =
   (case own m ''value'' of None \<Rightarrow> None | Some mv \<Rightarrow> own mv e) \<Longrightarrow>
     liveEntry es d' m' (e # path) = liveEntry es d m (e # path)"
  by (auto split: option.splits)















end
